(* ===== verification/Bank_Prelude.thy ===== *)
theory Bank_Prelude
  imports
    Complex_Main
    "HOL-Library.List_Lexorder"
    "HOL-Library.Multiset"
    "HOL-Library.Sublist"
begin

text \<open>
  Shared vocabulary of the development: Python strings as lists of Unicode code points
  (ordered as Python orders \<^verbatim>\<open>str\<close>, lexicographically by code point), the errors the
  called library raises, counting and summing over lists, the partition of a list by a
  key (what a group-by rests on), and rounding to two decimals the way
  \<^verbatim>\<open>round(2)\<close> does (ties to the even neighbour). The component theories prove their
  properties from the lemmas collected here.
\<close>

section \<open>Collections of facts\<close>

named_theorems frame_defs \<open>unfolding rules of the frame operations\<close>
named_theorems stat_defs \<open>unfolding rules of the statistics\<close>

section \<open>Python strings\<close>

text \<open>
  A Python \<^verbatim>\<open>str\<close> is a sequence of code points; \<^verbatim>\<open><\<close> on strings is the
  lexicographic order of the code points, which is the order \<open>HOL-Library.List_Lexorder\<close>
  gives to \<^typ>\<open>nat list\<close>. The non-ASCII labels of the source are written as
  their code points; ASCII literals go through \<open>ascii\<close>.
\<close>

type_synonym pystr = "nat list"

definition ascii :: "string \<Rightarrow> pystr" where
  "ascii s = map of_char s"

lemma ascii_simps [simp]:
  "ascii [] = []"
  "ascii (c # cs) = of_char c # ascii cs"
  by (simp_all add: ascii_def)

lemma length_ascii [simp]: "length (ascii s) = length s"
  by (simp add: ascii_def)

lemma ascii_inj [simp]: "ascii s = ascii t \<longleftrightarrow> s = t"
  by (simp add: ascii_def inj_map_eq_map [OF inj_of_char])

text \<open>
  \<^verbatim>\<open>str(n)\<close>, which an f-string applies to an integer: the decimal digits, most
  significant first, after a minus sign when \<open>n\<close> is negative. \<open>nat_of_digits\<close> reads
  digits back.
\<close>

fun digits :: "nat \<Rightarrow> pystr" where
  "digits n = (if n < 10 then [48 + n] else digits (n div 10) @ [48 + n mod 10])"

declare digits.simps [simp del]

definition str_int :: "int \<Rightarrow> pystr" where
  "str_int i = (if i < 0 then 45 # digits (nat (- i)) else digits (nat i))"

definition nat_of_digits :: "pystr \<Rightarrow> nat" where
  "nat_of_digits ds = foldl (\<lambda>a d. 10 * a + (d - 48)) 0 ds"

lemma nat_of_digits_snoc [simp]: "nat_of_digits (ds @ [d]) = 10 * nat_of_digits ds + (d - 48)"
  by (simp add: nat_of_digits_def)

lemma digits_nonempty [simp]: "digits n \<noteq> []"
  by (subst digits.simps) simp

lemma nat_of_digits_digits [simp]: "nat_of_digits (digits n) = n"
proof (induction n rule: digits.induct)
  case (1 n)
  show ?case
  proof (cases "n < 10")
    case True
    then show ?thesis
      by (subst digits.simps) (simp add: nat_of_digits_def)
  next
    case False
    with "1.IH" show ?thesis
      by (subst digits.simps) simp
  qed
qed

lemma digits_inj: "digits m = digits n \<Longrightarrow> m = n"
  by (metis nat_of_digits_digits)

lemma digits_range: "d \<in> set (digits n) \<Longrightarrow> 48 \<le> d \<and> d \<le> 57"
proof (induction n rule: digits.induct)
  case (1 n)
  show ?case
  proof (cases "n < 10")
    case True
    with "1.prems" show ?thesis
      by (subst (asm) digits.simps) auto
  next
    case False
    with "1.prems" consider "d \<in> set (digits (n div 10))" | "d = 48 + n mod 10"
      by (subst (asm) digits.simps) auto
    then show ?thesis
    proof cases
      case 1
      with False "1.IH" show ?thesis by simp
    next
      case 2
      then show ?thesis by simp
    qed
  qed
qed

lemma str_int_inj: "str_int i = str_int j \<Longrightarrow> i = j"
proof -
  have neg: "45 # digits m \<noteq> digits n" for m n
  proof
    assume "45 # digits m = digits n"
    then have "45 \<in> set (digits n)"
      by (metis list.set_intros(1))
    then show False
      by (auto dest: digits_range)
  qed
  assume "str_int i = str_int j"
  then show ?thesis
    using neg [of "nat (- i)" "nat j"] neg [of "nat (- j)" "nat i"]
    by (auto simp: str_int_def split: if_splits dest!: digits_inj)
qed

section \<open>What a print statement shows\<close>

text \<open>A line of text, or a value that the library renders.\<close>

datatype 'a printed = Text pystr | Shown 'a

section \<open>Errors of the called library\<close>

datatype pyerror = ValueError | IndexError

type_synonym 'a result = "pyerror + 'a"

section \<open>Counting and summing\<close>

text \<open>\<^verbatim>\<open>mask.sum()\<close> on a boolean column counts its true entries.\<close>

definition count_where :: "('a \<Rightarrow> bool) \<Rightarrow> 'a list \<Rightarrow> nat" where
  "count_where P xs = length (filter P xs)"

lemma count_where_simps [simp]:
  "count_where P [] = 0"
  "count_where P (x # xs) = (if P x then Suc (count_where P xs) else count_where P xs)"
  by (simp_all add: count_where_def)

lemma count_where_le: "count_where P xs \<le> length xs"
  by (simp add: count_where_def)

lemma count_where_append [simp]:
  "count_where P (xs @ ys) = count_where P xs + count_where P ys"
  by (simp add: count_where_def)

lemma count_where_compl: "count_where P xs + count_where (\<lambda>x. \<not> P x) xs = length xs"
  by (simp add: count_where_def sum_length_filter_compl)

lemma count_where_0_iff: "count_where P xs = 0 \<longleftrightarrow> (\<forall>x \<in> set xs. \<not> P x)"
  by (induction xs) auto

lemma count_where_length_iff: "count_where P xs = length xs \<longleftrightarrow> (\<forall>x \<in> set xs. P x)"
proof (induction xs)
  case Nil
  show ?case by simp
next
  case (Cons x xs)
  have "count_where P xs \<le> length xs"
    by (rule count_where_le)
  with Cons.IH show ?case by auto
qed

lemma count_where_map: "count_where P (map f xs) = count_where (P \<circ> f) xs"
  by (induction xs) auto

lemma count_where_filter: "count_where P (filter Q xs) = count_where (\<lambda>x. Q x \<and> P x) xs"
  by (induction xs) auto

lemma count_where_filter_le: "count_where P (filter Q xs) \<le> count_where P xs"
  by (induction xs) auto

lemma count_where_cong:
  "(\<And>x. x \<in> set xs \<Longrightarrow> P x = Q x) \<Longrightarrow> count_where P xs = count_where Q xs"
  by (induction xs) auto

section \<open>Values that are present\<close>

text \<open>
  Reductions skip missing cells: \<open>List.map_filter h xs\<close> lists the values \<open>h\<close> finds,
  in order.
\<close>

lemma set_map_filter: "set (List.map_filter h xs) = {y. \<exists>x \<in> set xs. h x = Some y}"
  by (induction xs) (auto simp: map_filter_simps split: option.split)

lemma length_map_filter: "length (List.map_filter h xs) = count_where (\<lambda>x. h x \<noteq> None) xs"
  by (induction xs) (auto simp: map_filter_simps split: option.split)

lemma count_mset_map_filter:
  "count (mset (List.map_filter h xs)) k = count_where (\<lambda>x. h x = Some k) xs"
  by (induction xs) (auto simp: map_filter_simps split: option.split)

lemma sum_list_map_filter_option:
  fixes h :: "'a \<Rightarrow> 'b::monoid_add option"
  shows "sum_list (List.map_filter h xs) = (\<Sum>x\<leftarrow>xs. case h x of None \<Rightarrow> 0 | Some a \<Rightarrow> a)"
  by (induction xs) (auto simp: map_filter_simps split: option.split)

lemma map_filter_all_Some: "List.map_filter h (map g xs) = map f xs"
  if "\<And>x. x \<in> set xs \<Longrightarrow> h (g x) = Some (f x)"
  using that by (induction xs) (auto simp: map_filter_simps)

text \<open>The distinct values of a list in the order of their first occurrence.\<close>

definition uniq_first :: "'a list \<Rightarrow> 'a list" where
  "uniq_first xs = rev (remdups (rev xs))"

lemma set_uniq_first [simp]: "set (uniq_first xs) = set xs"
  by (simp add: uniq_first_def)

lemma distinct_uniq_first [simp]: "distinct (uniq_first xs)"
  by (simp add: uniq_first_def)

section \<open>Partition of a list by a key\<close>

text \<open>
  A group-by splits the rows by the value of a key; each row lands in exactly one group
  when the keys are listed once each. Summing a quantity group by group therefore gives
  the sum over all rows whose key is listed.
\<close>

lemma sum_list_map_if_key:
  fixes S :: "'k \<Rightarrow> 'b::comm_monoid_add"
  assumes "distinct ks"
  shows "(\<Sum>k\<leftarrow>ks. if k = k0 then a + S k else S k) =
         (if k0 \<in> set ks then a else 0) + (\<Sum>k\<leftarrow>ks. S k)"
  using assms by (induction ks) (auto simp: ac_simps)

lemma sum_list_groups:
  fixes f :: "'a \<Rightarrow> 'b::comm_monoid_add"
  assumes "distinct ks"
  shows "(\<Sum>k\<leftarrow>ks. \<Sum>x\<leftarrow>filter (\<lambda>x. g x = k) xs. f x) =
         (\<Sum>x\<leftarrow>filter (\<lambda>x. g x \<in> set ks) xs. f x)"
proof (induction xs)
  case Nil
  show ?case by simp
next
  case (Cons x xs)
  let ?S = "\<lambda>k. \<Sum>y\<leftarrow>filter (\<lambda>y. g y = k) xs. f y"
  have "(\<Sum>k\<leftarrow>ks. \<Sum>y\<leftarrow>filter (\<lambda>y. g y = k) (x # xs). f y) =
        (\<Sum>k\<leftarrow>ks. if k = g x then f x + ?S k else ?S k)"
    by (rule arg_cong [where f = sum_list]) (auto intro!: map_cong)
  also have "\<dots> = (if g x \<in> set ks then f x else 0) + (\<Sum>k\<leftarrow>ks. ?S k)"
    using assms by (rule sum_list_map_if_key)
  finally show ?case
    using Cons.IH by simp
qed

lemma count_where_groups:
  assumes "distinct ks"
  shows "(\<Sum>k\<leftarrow>ks. count_where (\<lambda>x. g x = k) xs) = count_where (\<lambda>x. g x \<in> set ks) xs"
proof -
  have "(\<Sum>k\<leftarrow>ks. count_where (\<lambda>x. g x = k) xs) =
        (\<Sum>k\<leftarrow>ks. \<Sum>x\<leftarrow>filter (\<lambda>x. g x = k) xs. (1::nat))"
    by (simp add: count_where_def sum_list_triv)
  also have "\<dots> = (\<Sum>x\<leftarrow>filter (\<lambda>x. g x \<in> set ks) xs. 1)"
    using assms by (rule sum_list_groups)
  finally show ?thesis
    by (simp add: count_where_def sum_list_triv)
qed

section \<open>Sorted keys without repetition\<close>

text \<open>The categories of a column: its distinct values in ascending order.\<close>

definition sorted_uniq :: "'a::linorder list \<Rightarrow> 'a list" where
  "sorted_uniq xs = sort (remdups xs)"

lemma set_sorted_uniq [simp]: "set (sorted_uniq xs) = set xs"
  by (simp add: sorted_uniq_def)

lemma sorted_sorted_uniq [simp]: "sorted (sorted_uniq xs)"
  by (simp add: sorted_uniq_def)

lemma distinct_sorted_uniq [simp]: "distinct (sorted_uniq xs)"
  by (simp add: sorted_uniq_def)

lemma strict_sorted_sorted_uniq: "sorted_wrt (<) (sorted_uniq xs)"
  by (simp add: strict_sorted_iff)

lemma sorted_uniq_eq_sorted_list_of_set: "sorted_uniq xs = sorted_list_of_set (set xs)"
  by (simp add: sorted_uniq_def sorted_list_of_set_sort_remdups)

lemma sorted_uniq_set_cong: "set xs = set ys \<Longrightarrow> sorted_uniq xs = sorted_uniq ys"
  by (simp add: sorted_uniq_eq_sorted_list_of_set)

lemma sorted_uniq_idem [simp]: "sorted_uniq (sorted_uniq xs) = sorted_uniq xs"
  by (rule sorted_uniq_set_cong) simp

lemma length_sorted_uniq: "length (sorted_uniq xs) = card (set xs)"
  by (simp add: sorted_uniq_def length_remdups_card_conv)

section \<open>Rounding to two decimals\<close>

text \<open>
  \<^verbatim>\<open>round(2)\<close> rounds to the nearest multiple of \<open>1/100\<close>, a tie going to the even
  neighbour. \<open>round_half_even\<close> is that rule on the rationals and \<open>round2\<close> its use at
  two decimals. \<open>rhe_div\<close> and \<open>round2_div\<close> model no code: they compute the same
  values for a quotient \<open>p / q\<close> by integer division alone and serve to evaluate
  \<open>round2\<close> on the numbers of the program.
\<close>

definition round_half_even :: "rat \<Rightarrow> int" where
  "round_half_even x =
     (let f = \<lfloor>x\<rfloor>; d = x - of_int f in
      if d < 1 / 2 then f else if 1 / 2 < d then f + 1
      else if even f then f else f + 1)"

definition rhe_div :: "int \<Rightarrow> int \<Rightarrow> int" where
  "rhe_div p q =
     (let f = p div q; r = p mod q in
      if 2 * r < q then f else if q < 2 * r then f + 1
      else if even f then f else f + 1)"

definition round2 :: "rat \<Rightarrow> rat" where
  "round2 x = of_int (round_half_even (x * 100)) / 100"

definition round2_div :: "int \<Rightarrow> int \<Rightarrow> rat" where
  "round2_div p q = of_int (rhe_div (100 * p) q) / 100"

lemma frac_as_mod:
  fixes p q :: int
  assumes "0 < q"
  shows "(of_int p / of_int q :: rat) - of_int (p div q) = of_int (p mod q) / of_int q"
proof -
  have "(of_int p :: rat) = of_int (p div q) * of_int q + of_int (p mod q)"
    by (metis div_mult_mod_eq of_int_add of_int_mult)
  with assms show ?thesis
    by (simp add: field_simps)
qed

lemma rhe_div_correct:
  assumes "0 < q"
  shows "rhe_div p q = round_half_even (of_int p / of_int q)"
proof -
  let ?x = "of_int p / of_int q :: rat"
  have fl: "\<lfloor>?x\<rfloor> = p div q"
    by (rule floor_divide_of_int_eq)
  have d: "?x - of_int (p div q) = of_int (p mod q) / of_int q"
    using assms by (rule frac_as_mod)
  have lt: "(of_int (p mod q) / of_int q < (1 / 2 :: rat)) \<longleftrightarrow> 2 * (p mod q) < q"
  proof -
    have "(of_int (p mod q) / of_int q < (1 / 2 :: rat)) \<longleftrightarrow>
          (of_int (2 * (p mod q)) :: rat) < of_int q"
      using assms by (simp add: field_simps)
    then show ?thesis by (simp only: of_int_less_iff)
  qed
  have gt: "((1 / 2 :: rat) < of_int (p mod q) / of_int q) \<longleftrightarrow> q < 2 * (p mod q)"
  proof -
    have "((1 / 2 :: rat) < of_int (p mod q) / of_int q) \<longleftrightarrow>
          (of_int q :: rat) < of_int (2 * (p mod q))"
      using assms by (simp add: field_simps)
    then show ?thesis by (simp only: of_int_less_iff)
  qed
  show ?thesis
    unfolding rhe_div_def round_half_even_def Let_def fl d lt gt ..
qed

lemma round2_div_correct:
  assumes "0 < q"
  shows "round2_div p q = round2 (of_int p / of_int q)"
proof -
  have e: "(of_int p / of_int q :: rat) * 100 = of_int (100 * p) / of_int q"
    by simp
  show ?thesis
    unfolding round2_def round2_div_def e rhe_div_correct [OF assms] ..
qed

lemma round_half_even_bounds:
  "\<bar>of_int (round_half_even x) - x\<bar> \<le> 1 / 2"
proof -
  have "of_int \<lfloor>x\<rfloor> \<le> x" and "x < of_int \<lfloor>x\<rfloor> + 1"
    by linarith+
  then show ?thesis
    by (auto simp: round_half_even_def Let_def abs_le_iff)
qed

lemma round_half_even_iff:
  "round_half_even y = n \<longleftrightarrow>
     \<bar>of_int n - y\<bar> < 1 / 2 \<or> \<bar>of_int n - y\<bar> = 1 / 2 \<and> even n"
proof -
  define f where "f = \<lfloor>y\<rfloor>"
  define d where "d = y - of_int f"
  define k where "k = n - f"
  have d: "0 \<le> d" "d < 1"
    unfolding d_def f_def by linarith+
  have n: "of_int n - y = of_int k - d"
    by (simp add: k_def d_def)
  have r: "round_half_even y = (if d < 1 / 2 then f else if 1 / 2 < d then f + 1
      else if even f then f else f + 1)"
    by (simp add: round_half_even_def Let_def f_def d_def)
  consider "k \<le> - 1" | "k = 0" | "k = 1" | "2 \<le> k"
    by linarith
  then show ?thesis
  proof cases
    case 1
    then have "(of_int k :: rat) \<le> - 1"
      by (metis of_int_le_iff of_int_minus of_int_1)
    with d have "\<bar>of_int k - d\<bar> > 1 / 2" by linarith
    moreover from 1 have "n \<noteq> f" "n \<noteq> f + 1" by (simp_all add: k_def)
    ultimately show ?thesis
      unfolding n r by (auto split: if_splits)
  next
    case 2
    then have nf: "n = f" by (simp add: k_def)
    from d have "\<bar>of_int k - d\<bar> = d" by (simp add: 2)
    then show ?thesis
      unfolding n r using d by (auto simp: nf)
  next
    case 3
    then have nf: "n = f + 1" by (simp add: k_def)
    from d have "\<bar>of_int k - d\<bar> = 1 - d" by (simp add: 3)
    then show ?thesis
      unfolding n r using d by (auto simp: nf)
  next
    case 4
    then have "(2 :: rat) \<le> of_int k"
      by (metis of_int_le_iff of_int_numeral)
    with d have "\<bar>of_int k - d\<bar> > 1 / 2" by linarith
    moreover from 4 have "n \<noteq> f" "n \<noteq> f + 1" by (simp_all add: k_def)
    ultimately show ?thesis
      unfolding n r by (auto split: if_splits)
  qed
qed

lemma round2_iff:
  "round2 x = of_int n / 100 \<longleftrightarrow>
     \<bar>of_int n / 100 - x\<bar> < 1 / 200 \<or> \<bar>of_int n / 100 - x\<bar> = 1 / 200 \<and> even n"
proof -
  have a: "\<bar>of_int n / 100 - x\<bar> = \<bar>of_int n - x * 100\<bar> / 100"
    by (simp add: field_simps abs_divide flip: diff_divide_distrib)
  have "round2 x = of_int n / 100 \<longleftrightarrow> round_half_even (x * 100) = n"
    by (simp add: round2_def)
  then show ?thesis
    unfolding a round_half_even_iff by (simp add: field_simps)
qed

lemma round_half_even_of_int [simp]: "round_half_even (of_int n) = n"
  by (simp add: round_half_even_def)

lemma round2_error: "\<bar>round2 x - x\<bar> \<le> 1 / 200"
proof -
  have "\<bar>round2 x - x\<bar> = \<bar>of_int (round_half_even (x * 100)) - x * 100\<bar> / 100"
    by (simp add: round2_def field_simps abs_divide flip: diff_divide_distrib)
  also have "\<dots> \<le> (1 / 2) / 100"
    by (rule divide_right_mono [OF round_half_even_bounds]) simp
  finally show ?thesis by simp
qed

lemma round2_of_int [simp]: "round2 (of_int n) = of_int n"
proof -
  have "(of_int n :: rat) * 100 = of_int (n * 100)" by simp
  then have "round_half_even (of_int n * 100) = n * 100"
    by (simp only: round_half_even_of_int)
  then show ?thesis
    by (simp add: round2_def)
qed

lemma round2_idem [simp]: "round2 (round2 x) = round2 x"
proof -
  have "round2 x * 100 = of_int (round_half_even (x * 100))"
    by (simp add: round2_def)
  then show ?thesis
    unfolding round2_def [of "round2 x"] by (simp add: round2_def)
qed

end
