(* ===== verification/Bank_Frame.thy ===== *)
theory Bank_Frame
  imports Bank_Prelude
begin

text \<open>
  The table model that every step of \<^verbatim>\<open>src/bank_analysis.py\<close> works on: the six
  columns of the table, a transaction as a record of six cells that may be missing, and
  a frame as its rows, each under its index label, with the dtype of each column. The
  theory holds what the steps share: reading a cell by column, selecting rows by a
  boolean mask, \<open>head\<close>, the counts of missing and present cells behind \<^verbatim>\<open>info()\<close>
  and \<^verbatim>\<open>isnull().sum()\<close>, and the well-formedness invariant \<open>wf_frame\<close> with the
  lemmas that selection keeps it.
\<close>

section \<open>Columns, cells and dtypes\<close>

datatype column = TransactionId | CustomerId | TransactionType | Amount | Channel | Status

definition all_columns :: "column list" where
  "all_columns = [TransactionId, CustomerId, TransactionType, Amount, Channel, Status]"

text \<open>The keys of the dictionary, as the code points of their labels.\<close>

fun column_label :: "column \<Rightarrow> pystr" where
  "column_label TransactionId = [20132, 26131, 73, 68]"
| "column_label CustomerId = [23458, 25143, 73, 68]"
| "column_label TransactionType = [20132, 26131, 31867, 22411]"
| "column_label Amount = [20132, 26131, 37329, 39069]"
| "column_label Channel = [20132, 26131, 28192, 36947]"
| "column_label Status = [20132, 26131, 29366, 24577]"

datatype cell = IntCell int | StrCell pystr

text \<open>
  Cells of one column are all integers or all strings; the order below compares like
  with like as Python does and puts integers first, which no well-typed column observes.
\<close>

instantiation cell :: linorder
begin

fun less_eq_cell :: "cell \<Rightarrow> cell \<Rightarrow> bool" where
  "IntCell a \<le> IntCell b \<longleftrightarrow> a \<le> b"
| "StrCell s \<le> StrCell t \<longleftrightarrow> s \<le> t"
| "IntCell a \<le> StrCell t \<longleftrightarrow> True"
| "StrCell s \<le> IntCell b \<longleftrightarrow> False"

definition less_cell :: "cell \<Rightarrow> cell \<Rightarrow> bool" where
  "less_cell x y \<longleftrightarrow> x \<le> y \<and> \<not> y \<le> x"

instance
proof
  fix x y z :: cell
  show "x < y \<longleftrightarrow> x \<le> y \<and> \<not> y \<le> x"
    by (rule less_cell_def)
  show "x \<le> x"
    by (cases x) simp_all
  show "x \<le> y \<Longrightarrow> y \<le> z \<Longrightarrow> x \<le> z"
    by (cases x; cases y; cases z) auto
  show "x \<le> y \<Longrightarrow> y \<le> x \<Longrightarrow> x = y"
    by (cases x; cases y) auto
  show "x \<le> y \<or> y \<le> x"
    by (cases x; cases y) auto
qed

end

lemma less_cell_simps [simp]:
  "IntCell a < IntCell b \<longleftrightarrow> a < b"
  "StrCell s < StrCell t \<longleftrightarrow> s < t"
  "IntCell a < StrCell t \<longleftrightarrow> True"
  "StrCell s < IntCell b \<longleftrightarrow> False"
  by (auto simp: less_cell_def)

datatype dtype = Int64 | Float64 | Object | Category "cell list"

section \<open>Transactions and the cells of a row\<close>

record transaction =
  transaction_id :: "int option"
  customer_id :: "pystr option"
  transaction_type :: "pystr option"
  amount :: "int option"
  channel :: "pystr option"
  status :: "pystr option"

fun cell_of :: "column \<Rightarrow> transaction \<Rightarrow> cell option" where
  "cell_of TransactionId r = map_option IntCell (transaction_id r)"
| "cell_of CustomerId r = map_option StrCell (customer_id r)"
| "cell_of TransactionType r = map_option StrCell (transaction_type r)"
| "cell_of Amount r = map_option IntCell (amount r)"
| "cell_of Channel r = map_option StrCell (channel r)"
| "cell_of Status r = map_option StrCell (status r)"

definition is_null :: "column \<Rightarrow> transaction \<Rightarrow> bool" where
  "is_null c r \<longleftrightarrow> cell_of c r = None"

lemma map_option_cell_eq [simp]:
  "map_option IntCell a = map_option IntCell b \<longleftrightarrow> a = b"
  "map_option StrCell s = map_option StrCell t \<longleftrightarrow> s = t"
  by (cases a; cases b; simp) (cases s; cases t; simp)

text \<open>Two rows are the same row when they agree on every column.\<close>

lemma transaction_eq_cells:
  "r = r' \<longleftrightarrow> (\<forall>c. cell_of c r = cell_of c r')"
proof
  assume "\<forall>c. cell_of c r = cell_of c r'"
  then have "cell_of TransactionId r = cell_of TransactionId r'"
    "cell_of CustomerId r = cell_of CustomerId r'"
    "cell_of TransactionType r = cell_of TransactionType r'"
    "cell_of Amount r = cell_of Amount r'"
    "cell_of Channel r = cell_of Channel r'"
    "cell_of Status r = cell_of Status r'"
    by blast+
  then show "r = r'"
    by (cases r; cases r') simp
qed simp

section \<open>Frames\<close>

record frame =
  rows :: "(nat \<times> transaction) list"
  dtypes :: "(column \<times> dtype) list"

definition frame_columns :: "frame \<Rightarrow> column list" where
  "frame_columns f = map fst (dtypes f)"

definition records :: "frame \<Rightarrow> transaction list" where
  "records f = map snd (rows f)"

definition index :: "frame \<Rightarrow> nat list" where
  "index f = map fst (rows f)"

definition column_cells :: "column \<Rightarrow> frame \<Rightarrow> cell option list" where
  "column_cells c f = map (cell_of c) (records f)"

definition shape :: "frame \<Rightarrow> nat \<times> nat" where
  "shape f = (length (rows f), length (dtypes f))"

definition empty_frame :: "frame \<Rightarrow> bool" where
  "empty_frame f \<longleftrightarrow> rows f = [] \<or> dtypes f = []"

lemmas frame_access_defs [frame_defs] =
  frame_columns_def records_def index_def column_cells_def shape_def empty_frame_def

lemma length_records [simp]: "length (records f) = length (rows f)"
  by (simp add: records_def)

lemma length_index [simp]: "length (index f) = length (rows f)"
  by (simp add: index_def)

lemma length_column_cells [simp]: "length (column_cells c f) = length (rows f)"
  by (simp add: column_cells_def)

section \<open>Well-formed frames\<close>

text \<open>
  What the library keeps true of a frame: index labels are not repeated, the six columns
  stand in their order, an \<open>Int64\<close> column has no missing cell, and the categories of a
  categorical column are ascending, without repetition, and hold every value present.
\<close>

fun dtype_ok :: "dtype \<Rightarrow> cell option list \<Rightarrow> bool" where
  "dtype_ok Int64 vs = list_all (\<lambda>v. v \<noteq> None) vs"
| "dtype_ok (Category cats) vs =
     (sorted cats \<and> distinct cats \<and>
      list_all (\<lambda>v. case v of None \<Rightarrow> True | Some x \<Rightarrow> x \<in> set cats) vs)"
| "dtype_ok Float64 vs = True"
| "dtype_ok Object vs = True"

definition wf_frame :: "frame \<Rightarrow> bool" where
  "wf_frame f \<longleftrightarrow>
     distinct (index f) \<and> frame_columns f = all_columns \<and>
     list_all (\<lambda>(c, t). dtype_ok t (column_cells c f)) (dtypes f)"

lemma dtype_ok_filter:
  assumes "dtype_ok t (map g xs)"
  shows "dtype_ok t (map g (filter P xs))"
  using assms by (cases t) (auto simp: list_all_iff)

lemma dtype_ok_take:
  assumes "dtype_ok t vs"
  shows "dtype_ok t (take n vs)"
  using assms by (cases t) (auto simp: list_all_iff dest: in_set_takeD)

lemma wf_frameI:
  assumes "distinct (index f)" and "frame_columns f = all_columns"
    and "\<And>c t. (c, t) \<in> set (dtypes f) \<Longrightarrow> dtype_ok t (column_cells c f)"
  shows "wf_frame f"
  using assms by (auto simp: wf_frame_def list_all_iff)

lemma wf_frameD:
  assumes "wf_frame f"
  shows "distinct (index f)" and "frame_columns f = all_columns"
    and "(c, t) \<in> set (dtypes f) \<Longrightarrow> dtype_ok t (column_cells c f)"
  using assms by (auto simp: wf_frame_def list_all_iff)

section \<open>Selecting rows\<close>

text \<open>
  \<^verbatim>\<open>df[mask]\<close> keeps the rows whose mask entry is true, in their order and under their
  index labels; the dtypes stay. \<^verbatim>\<open>df.head()\<close> keeps the first five rows.
\<close>

definition select_rows :: "(transaction \<Rightarrow> bool) \<Rightarrow> frame \<Rightarrow> frame" where
  "select_rows P f = f\<lparr>rows := filter (\<lambda>(i, r). P r) (rows f)\<rparr>"

definition head :: "frame \<Rightarrow> frame" where
  "head f = f\<lparr>rows := take 5 (rows f)\<rparr>"

lemma dtypes_select_rows [simp]: "dtypes (select_rows P f) = dtypes f"
  by (simp add: select_rows_def)

lemma rows_select_rows: "rows (select_rows P f) = filter (\<lambda>(i, r). P r) (rows f)"
  by (simp add: select_rows_def)

lemma records_select_rows [simp]: "records (select_rows P f) = filter P (records f)"
  by (simp add: select_rows_def records_def filter_map comp_def case_prod_unfold)

lemma in_rows_select_rows [simp]:
  "(i, r) \<in> set (rows (select_rows P f)) \<longleftrightarrow> (i, r) \<in> set (rows f) \<and> P r"
  by (auto simp: select_rows_def)

lemma subseq_select_rows: "subseq (rows (select_rows P f)) (rows f)"
  by (simp add: select_rows_def)

lemma length_select_rows: "length (rows (select_rows P f)) = count_where P (records f)"
  by (simp add: select_rows_def records_def count_where_def filter_map comp_def case_prod_unfold)

lemma select_rows_select_rows:
  "select_rows P (select_rows Q f) = select_rows (\<lambda>r. Q r \<and> P r) f"
  by (simp add: select_rows_def case_prod_unfold)

lemma wf_select_rows:
  assumes "wf_frame f"
  shows "wf_frame (select_rows P f)"
proof (rule wf_frameI)
  show "distinct (index (select_rows P f))"
    using wf_frameD(1) [OF assms] by (simp add: index_def select_rows_def distinct_map_filter)
  show "frame_columns (select_rows P f) = all_columns"
    using wf_frameD(2) [OF assms] by (simp add: frame_columns_def)
next
  fix c t
  assume "(c, t) \<in> set (dtypes (select_rows P f))"
  then have "dtype_ok t (map (cell_of c) (records f))"
    using wf_frameD(3) [OF assms] by (simp add: column_cells_def)
  then show "dtype_ok t (column_cells c (select_rows P f))"
    unfolding column_cells_def records_select_rows by (rule dtype_ok_filter)
qed

lemma rows_head: "rows (head f) = take 5 (rows f)"
  by (simp add: head_def)

lemma wf_head:
  assumes "wf_frame f"
  shows "wf_frame (head f)"
proof (rule wf_frameI)
  show "distinct (index (head f))"
    using wf_frameD(1) [OF assms] by (simp add: index_def head_def take_map [symmetric])
  show "frame_columns (head f) = all_columns"
    using wf_frameD(2) [OF assms] by (simp add: frame_columns_def head_def)
next
  fix c t
  assume "(c, t) \<in> set (dtypes (head f))"
  then have "dtype_ok t (column_cells c f)"
    using wf_frameD(3) [OF assms] by (simp add: head_def)
  then have "dtype_ok t (take 5 (column_cells c f))"
    by (rule dtype_ok_take)
  then show "dtype_ok t (column_cells c (head f))"
    by (simp add: column_cells_def records_def head_def take_map)
qed

section \<open>Counting missing and present cells\<close>

text \<open>
  \<^verbatim>\<open>df.info()\<close> lists, per column, the number of cells that are present and the dtype;
  \<^verbatim>\<open>df.isnull().sum()\<close> lists the number that are missing.
\<close>

definition null_count :: "column \<Rightarrow> frame \<Rightarrow> nat" where
  "null_count c f = count_where (is_null c) (records f)"

definition non_null_count :: "column \<Rightarrow> frame \<Rightarrow> nat" where
  "non_null_count c f = count_where (\<lambda>r. \<not> is_null c r) (records f)"

definition info :: "frame \<Rightarrow> (column \<times> nat \<times> dtype) list" where
  "info f = map (\<lambda>(c, t). (c, non_null_count c f, t)) (dtypes f)"

lemma null_count_plus_non_null: "null_count c f + non_null_count c f = length (rows f)"
  by (simp add: null_count_def non_null_count_def count_where_compl)

lemma null_count_0_iff: "null_count c f = 0 \<longleftrightarrow> None \<notin> set (column_cells c f)"
proof -
  have "null_count c f = 0 \<longleftrightarrow> (\<forall>r \<in> set (records f). cell_of c r \<noteq> None)"
    by (simp only: null_count_def count_where_0_iff is_null_def)
  also have "\<dots> \<longleftrightarrow> None \<notin> set (column_cells c f)"
    unfolding column_cells_def set_map by (metis imageE imageI)
  finally show ?thesis .
qed

lemma null_count_select_rows_le: "null_count c (select_rows P f) \<le> null_count c f"
  by (simp add: null_count_def count_where_filter_le)

lemma dtype_ok_Int64_null_count:
  assumes "wf_frame f" and "(c, Int64) \<in> set (dtypes f)"
  shows "null_count c f = 0"
  using wf_frameD(3) [OF assms] by (auto simp: null_count_0_iff list_all_iff)

end
