(* ===== verification/Bank_Data.thy ===== *)
theory Bank_Data
  imports Bank_Frame
begin

text \<open>
  The data generator (lines 15 to 36 of \<^verbatim>\<open>src/bank_analysis.py\<close>): the labels that occur
  in the table, the dictionary \<open>data\<close> of six equally long sequences, the constructor
  \<open>DataFrame\<close>, which refuses sequences of different lengths, and the frame \<open>df\<close> of
  the program. The lemmas say what the constructor builds for any dictionary (row \<open>k\<close>
  holds entry \<open>k\<close> of every sequence, under the index label \<open>k\<close>), that the result is
  well formed, and what \<open>df\<close> is.
\<close>

section \<open>The labels of the table\<close>

text \<open>
  Transaction types, channels and states, as the code points of the source's literals:
  deposit, withdrawal, transfer; online banking, ATM, mobile banking, counter; success,
  failure.
\<close>

definition deposit :: pystr where "deposit = [23384, 27454]"
definition withdrawal :: pystr where "withdrawal = [21462, 27454]"
definition transfer :: pystr where "transfer = [36716, 36134]"

definition online_banking :: pystr where "online_banking = [32593, 38134]"
definition atm :: pystr where "atm = ascii ''ATM''"
definition mobile_banking :: pystr where "mobile_banking = [25163, 26426, 38134, 34892]"
definition counter :: pystr where "counter = [26588, 21488]"

definition success :: pystr where "success = [25104, 21151]"
definition failure :: pystr where "failure = [22833, 36133]"

lemmas label_defs =
  deposit_def withdrawal_def transfer_def online_banking_def atm_def mobile_banking_def
  counter_def success_def failure_def

section \<open>The dictionary of sequences\<close>

record columns =
  ids :: "int option list"
  customers :: "pystr option list"
  types :: "pystr option list"
  amounts :: "int option list"
  channels :: "pystr option list"
  statuses :: "pystr option list"

text \<open>\<^verbatim>\<open>range(a, b)\<close>: the integers from \<open>a\<close> up to, not including, \<open>b\<close>.\<close>

definition py_range :: "int \<Rightarrow> int \<Rightarrow> int list" where
  "py_range a b = [a..b - 1]"

definition data :: columns where
  "data = \<lparr>
     ids = map Some (py_range 1001 1021),
     customers = map (Some \<circ> ascii)
       [''C1001'', ''C1002'', ''C1001'', ''C1003'', ''C1004'',
        ''C1002'', ''C1005'', ''C1003'', ''C1006'', ''C1007'',
        ''C1008'', ''C1004'', ''C1009'', ''C1010'', ''C1005'',
        ''C1001'', ''C1006'', ''C1011'', ''C1002'', ''C1003''],
     types = map Some
       [deposit, withdrawal, transfer, deposit, withdrawal,
        transfer, deposit, withdrawal, deposit, transfer,
        withdrawal, deposit, transfer, deposit, withdrawal,
        transfer, deposit, withdrawal, deposit, transfer],
     amounts = map Some
       [5000, -2000, -1500, 8000, -500, -3000, 12000, -2200, 6000, -4000,
        -1000, 7000, -2500, 9000, -1200, -3500, 4500, -800, 3000, -1500],
     channels = map Some
       [online_banking, atm, mobile_banking, counter, atm,
        online_banking, mobile_banking, counter, online_banking, mobile_banking,
        atm, counter, online_banking, mobile_banking, atm,
        mobile_banking, counter, atm, online_banking, counter],
     statuses = map Some
       [success, success, success, success, failure,
        success, success, success, success, success,
        success, success, success, success, success,
        success, success, success, success, success]\<rparr>"

section \<open>Building the frame\<close>

text \<open>
  The constructor raises \<^verbatim>\<open>ValueError\<close> unless all sequences have one length. It
  numbers the rows from 0 and infers a dtype per column: strings are \<open>Object\<close>;
  integers are \<open>Int64\<close>, \<open>Float64\<close> once a cell is missing (a missing number is a
  NaN), and \<open>Object\<close> when no cell holds a number.
\<close>

definition same_length :: "columns \<Rightarrow> bool" where
  "same_length d \<longleftrightarrow>
     length (customers d) = length (ids d) \<and> length (types d) = length (ids d) \<and>
     length (amounts d) = length (ids d) \<and> length (channels d) = length (ids d) \<and>
     length (statuses d) = length (ids d)"

definition infer_int_dtype :: "int option list \<Rightarrow> dtype" where
  "infer_int_dtype vs =
     (if list_all (\<lambda>v. v = None) vs then Object
      else if list_ex (\<lambda>v. v = None) vs then Float64 else Int64)"

definition infer_dtypes :: "columns \<Rightarrow> (column \<times> dtype) list" where
  "infer_dtypes d =
     [(TransactionId, infer_int_dtype (ids d)), (CustomerId, Object),
      (TransactionType, Object), (Amount, infer_int_dtype (amounts d)),
      (Channel, Object), (Status, Object)]"

definition row_at :: "columns \<Rightarrow> nat \<Rightarrow> transaction" where
  "row_at d k = \<lparr>transaction_id = ids d ! k, customer_id = customers d ! k,
     transaction_type = types d ! k, amount = amounts d ! k,
     channel = channels d ! k, status = statuses d ! k\<rparr>"

definition build_frame :: "columns \<Rightarrow> frame" where
  "build_frame d =
     \<lparr>rows = map (\<lambda>k. (k, row_at d k)) [0..<length (ids d)], dtypes = infer_dtypes d\<rparr>"

definition DataFrame :: "columns \<Rightarrow> frame result" where
  "DataFrame d = (if same_length d then Inr (build_frame d) else Inl ValueError)"

definition df :: frame where
  "df = build_frame data"

lemmas data_defs [frame_defs] =
  same_length_def infer_int_dtype_def infer_dtypes_def row_at_def build_frame_def DataFrame_def

section \<open>What the constructor builds\<close>

lemma DataFrame_Inr_iff: "DataFrame d = Inr f \<longleftrightarrow> same_length d \<and> f = build_frame d"
  by (auto simp: DataFrame_def)

lemma DataFrame_Inl_iff: "DataFrame d = Inl e \<longleftrightarrow> \<not> same_length d \<and> e = ValueError"
  by (auto simp: DataFrame_def)

lemma rows_build_frame:
  "rows (build_frame d) = map (\<lambda>k. (k, row_at d k)) [0..<length (ids d)]"
  by (simp add: build_frame_def)

lemma length_rows_build_frame [simp]: "length (rows (build_frame d)) = length (ids d)"
  by (simp add: build_frame_def)

lemma index_build_frame [simp]: "index (build_frame d) = [0..<length (ids d)]"
  by (simp add: build_frame_def index_def comp_def)

lemma nth_rows_build_frame:
  "k < length (ids d) \<Longrightarrow> rows (build_frame d) ! k = (k, row_at d k)"
  by (simp add: build_frame_def)

lemma frame_columns_build_frame [simp]: "frame_columns (build_frame d) = all_columns"
  by (simp add: build_frame_def frame_columns_def infer_dtypes_def all_columns_def)

lemma column_cells_build_frame:
  "column_cells c (build_frame d) = map (\<lambda>k. cell_of c (row_at d k)) [0..<length (ids d)]"
  by (simp add: column_cells_def records_def build_frame_def comp_def)

lemma infer_int_dtype_ok:
  assumes "length vs = n"
  shows "dtype_ok (infer_int_dtype vs) (map (\<lambda>k. map_option IntCell (vs ! k)) [0..<n])"
proof -
  have "map (\<lambda>k. map_option IntCell (vs ! k)) [0..<n] = map (map_option IntCell) vs"
    using assms by (auto intro!: nth_equalityI)
  moreover have "None \<notin> set vs \<Longrightarrow> v \<in> set vs \<Longrightarrow> \<exists>z. v = Some z" for v
    by (cases v) auto
  ultimately show ?thesis
    by (auto simp: infer_int_dtype_def list_all_iff list_ex_iff)
qed

lemma wf_build_frame:
  assumes "same_length d"
  shows "wf_frame (build_frame d)"
proof (rule wf_frameI)
  show "distinct (index (build_frame d))" by simp
  show "frame_columns (build_frame d) = all_columns" by simp
next
  fix c t
  assume "(c, t) \<in> set (dtypes (build_frame d))"
  then consider "c = TransactionId" "t = infer_int_dtype (ids d)"
    | "c = Amount" "t = infer_int_dtype (amounts d)" | "t = Object"
    by (auto simp: build_frame_def infer_dtypes_def)
  then show "dtype_ok t (column_cells c (build_frame d))"
  proof cases
    case 1
    then show ?thesis
      using infer_int_dtype_ok [of "ids d" "length (ids d)"]
      by (simp add: column_cells_build_frame row_at_def)
  next
    case 2
    then show ?thesis
      using assms infer_int_dtype_ok [of "amounts d" "length (ids d)"]
      by (simp add: column_cells_build_frame row_at_def same_length_def)
  next
    case 3
    then show ?thesis by simp
  qed
qed

lemma column_cells_build_frame_ids:
  "column_cells TransactionId (build_frame d) = map (map_option IntCell) (ids d)"
  by (auto simp: column_cells_build_frame row_at_def intro!: nth_equalityI)

lemma column_cells_build_frame_amounts:
  assumes "same_length d"
  shows "column_cells Amount (build_frame d) = map (map_option IntCell) (amounts d)"
  using assms
  by (auto simp: column_cells_build_frame row_at_def same_length_def intro!: nth_equalityI)

lemma column_cells_build_frame_strs:
  assumes "same_length d"
  shows "column_cells CustomerId (build_frame d) = map (map_option StrCell) (customers d)"
    and "column_cells TransactionType (build_frame d) = map (map_option StrCell) (types d)"
    and "column_cells Channel (build_frame d) = map (map_option StrCell) (channels d)"
    and "column_cells Status (build_frame d) = map (map_option StrCell) (statuses d)"
  using assms
  by (auto simp: column_cells_build_frame row_at_def same_length_def intro!: nth_equalityI)

section \<open>The table of the program\<close>

lemma same_length_data: "same_length data"
  by (simp add: same_length_def data_def py_range_def)

lemma DataFrame_data: "DataFrame data = Inr df"
  by (simp add: DataFrame_def df_def same_length_data)

lemma wf_df: "wf_frame df"
  unfolding df_def using same_length_data by (rule wf_build_frame)

lemma upt_20: "[0..<20] = [0, 1, 2, 3, 4, 5, 6, 7, 8, 9, 10, 11, 12, 13, 14, 15, 16, 17, 18, 19]"
  by (simp add: upt_rec)

lemma rows_df:
  "rows df =
   [(0, \<lparr>transaction_id = Some 1001, customer_id = Some (ascii ''C1001''),
      transaction_type = Some deposit, amount = Some 5000, channel = Some online_banking,
      status = Some success\<rparr>),
    (1, \<lparr>transaction_id = Some 1002, customer_id = Some (ascii ''C1002''),
      transaction_type = Some withdrawal, amount = Some (-2000), channel = Some atm,
      status = Some success\<rparr>),
    (2, \<lparr>transaction_id = Some 1003, customer_id = Some (ascii ''C1001''),
      transaction_type = Some transfer, amount = Some (-1500), channel = Some mobile_banking,
      status = Some success\<rparr>),
    (3, \<lparr>transaction_id = Some 1004, customer_id = Some (ascii ''C1003''),
      transaction_type = Some deposit, amount = Some 8000, channel = Some counter,
      status = Some success\<rparr>),
    (4, \<lparr>transaction_id = Some 1005, customer_id = Some (ascii ''C1004''),
      transaction_type = Some withdrawal, amount = Some (-500), channel = Some atm,
      status = Some failure\<rparr>),
    (5, \<lparr>transaction_id = Some 1006, customer_id = Some (ascii ''C1002''),
      transaction_type = Some transfer, amount = Some (-3000), channel = Some online_banking,
      status = Some success\<rparr>),
    (6, \<lparr>transaction_id = Some 1007, customer_id = Some (ascii ''C1005''),
      transaction_type = Some deposit, amount = Some 12000, channel = Some mobile_banking,
      status = Some success\<rparr>),
    (7, \<lparr>transaction_id = Some 1008, customer_id = Some (ascii ''C1003''),
      transaction_type = Some withdrawal, amount = Some (-2200), channel = Some counter,
      status = Some success\<rparr>),
    (8, \<lparr>transaction_id = Some 1009, customer_id = Some (ascii ''C1006''),
      transaction_type = Some deposit, amount = Some 6000, channel = Some online_banking,
      status = Some success\<rparr>),
    (9, \<lparr>transaction_id = Some 1010, customer_id = Some (ascii ''C1007''),
      transaction_type = Some transfer, amount = Some (-4000), channel = Some mobile_banking,
      status = Some success\<rparr>),
    (10, \<lparr>transaction_id = Some 1011, customer_id = Some (ascii ''C1008''),
      transaction_type = Some withdrawal, amount = Some (-1000), channel = Some atm,
      status = Some success\<rparr>),
    (11, \<lparr>transaction_id = Some 1012, customer_id = Some (ascii ''C1004''),
      transaction_type = Some deposit, amount = Some 7000, channel = Some counter,
      status = Some success\<rparr>),
    (12, \<lparr>transaction_id = Some 1013, customer_id = Some (ascii ''C1009''),
      transaction_type = Some transfer, amount = Some (-2500), channel = Some online_banking,
      status = Some success\<rparr>),
    (13, \<lparr>transaction_id = Some 1014, customer_id = Some (ascii ''C1010''),
      transaction_type = Some deposit, amount = Some 9000, channel = Some mobile_banking,
      status = Some success\<rparr>),
    (14, \<lparr>transaction_id = Some 1015, customer_id = Some (ascii ''C1005''),
      transaction_type = Some withdrawal, amount = Some (-1200), channel = Some atm,
      status = Some success\<rparr>),
    (15, \<lparr>transaction_id = Some 1016, customer_id = Some (ascii ''C1001''),
      transaction_type = Some transfer, amount = Some (-3500), channel = Some mobile_banking,
      status = Some success\<rparr>),
    (16, \<lparr>transaction_id = Some 1017, customer_id = Some (ascii ''C1006''),
      transaction_type = Some deposit, amount = Some 4500, channel = Some counter,
      status = Some success\<rparr>),
    (17, \<lparr>transaction_id = Some 1018, customer_id = Some (ascii ''C1011''),
      transaction_type = Some withdrawal, amount = Some (-800), channel = Some atm,
      status = Some success\<rparr>),
    (18, \<lparr>transaction_id = Some 1019, customer_id = Some (ascii ''C1002''),
      transaction_type = Some deposit, amount = Some 3000, channel = Some online_banking,
      status = Some success\<rparr>),
    (19, \<lparr>transaction_id = Some 1020, customer_id = Some (ascii ''C1003''),
      transaction_type = Some transfer, amount = Some (-1500), channel = Some counter,
      status = Some success\<rparr>)]"
  by (simp add: df_def build_frame_def data_def py_range_def row_at_def upt_20)

lemma dtypes_df:
  "dtypes df = [(TransactionId, Int64), (CustomerId, Object), (TransactionType, Object),
     (Amount, Int64), (Channel, Object), (Status, Object)]"
  by (simp add: df_def build_frame_def infer_dtypes_def infer_int_dtype_def data_def py_range_def)

section \<open>Properties of the generator\<close>

text \<open>
  C3. Whenever the constructor returns a frame, the frame has one row per entry of the
  sequences, and row \<open>k\<close> stands under the index label \<open>k\<close> and holds entry \<open>k\<close>
  of each of the six sequences.
\<close>

theorem DataFrame_rows:
  assumes "DataFrame d = Inr f" and "k < length (ids d)"
  shows "length (rows f) = length (ids d) \<and>
         rows f ! k = (k, \<lparr>transaction_id = ids d ! k, customer_id = customers d ! k,
           transaction_type = types d ! k, amount = amounts d ! k,
           channel = channels d ! k, status = statuses d ! k\<rparr>)"
  using assms by (simp add: DataFrame_Inr_iff nth_rows_build_frame row_at_def)

theorem DataFrame_rows_witness:
  "DataFrame data = Inr df \<and> (6::nat) < length (ids data) \<and> length (rows df) = 20 \<and>
   rows df ! 6 = (6, \<lparr>transaction_id = Some 1007, customer_id = Some (ascii ''C1005''),
     transaction_type = Some deposit, amount = Some 12000, channel = Some mobile_banking,
     status = Some success\<rparr>)"
proof -
  have k: "(6::nat) < length (ids data)"
    by (simp add: data_def py_range_def)
  have entries: "length (ids data) = 20" "ids data ! 6 = Some 1007"
    "customers data ! 6 = Some (ascii ''C1005'')" "types data ! 6 = Some deposit"
    "amounts data ! 6 = Some 12000" "channels data ! 6 = Some mobile_banking"
    "statuses data ! 6 = Some success"
    by (simp_all add: data_def py_range_def)
  show ?thesis
    using DataFrame_rows [OF DataFrame_data k] DataFrame_data k by (simp add: entries)
qed

text \<open>
  C10. The constructor fails, with \<^verbatim>\<open>ValueError\<close>, exactly when two of the six
  sequences differ in length; it never fails in another way.
\<close>

theorem DataFrame_ValueError:
  "(DataFrame d = Inl e) =
   (e = ValueError \<and>
    (length (customers d), length (types d), length (amounts d), length (channels d),
     length (statuses d)) \<noteq>
    (length (ids d), length (ids d), length (ids d), length (ids d), length (ids d)))"
  by (auto simp: DataFrame_Inl_iff same_length_def)

text \<open>
  C15. Every frame the constructor returns is well formed: distinct index labels, the six
  columns in order, no missing cell in an \<open>Int64\<close> column.
\<close>

theorem DataFrame_wf:
  assumes "DataFrame d = Inr f"
  shows "wf_frame f"
  using assms by (auto simp: DataFrame_Inr_iff intro: wf_build_frame)

theorem DataFrame_wf_witness: "DataFrame data = Inr df \<and> wf_frame df"
  using DataFrame_wf [OF DataFrame_data] by (simp add: DataFrame_data)

text \<open>
  C16. Reading the columns of a constructed frame gives back the six sequences of the
  dictionary, entry by entry: building the rows loses and reorders nothing.
\<close>

theorem DataFrame_columns:
  assumes "DataFrame d = Inr f"
  shows "column_cells TransactionId f = map (map_option IntCell) (ids d) \<and>
         column_cells CustomerId f = map (map_option StrCell) (customers d) \<and>
         column_cells TransactionType f = map (map_option StrCell) (types d) \<and>
         column_cells Amount f = map (map_option IntCell) (amounts d) \<and>
         column_cells Channel f = map (map_option StrCell) (channels d) \<and>
         column_cells Status f = map (map_option StrCell) (statuses d)"
  using assms
  by (simp add: DataFrame_Inr_iff column_cells_build_frame_ids
      column_cells_build_frame_amounts column_cells_build_frame_strs)

theorem DataFrame_columns_witness:
  "DataFrame data = Inr df \<and>
   column_cells Amount df = map (Some \<circ> IntCell)
     [5000, -2000, -1500, 8000, -500, -3000, 12000, -2200, 6000, -4000,
      -1000, 7000, -2500, 9000, -1200, -3500, 4500, -800, 3000, -1500]"
proof -
  have "column_cells Amount df = map (map_option IntCell) (amounts data)"
    using DataFrame_columns [OF DataFrame_data] by blast
  also have "amounts data = map Some
     [5000, -2000, -1500, 8000, -500, -3000, 12000, -2200, 6000, -4000,
      -1000, 7000, -2500, 9000, -1200, -3500, 4500, -800, 3000, -1500]"
    by (simp add: data_def)
  finally show ?thesis
    using DataFrame_data by simp
qed

text \<open>
  C37. The table of the program has 20 rows and 6 columns, index labels 0 to 19, and
  the transaction ids are the contiguous range 1001 to 1020.
\<close>

theorem df_shape:
  "DataFrame data = Inr df \<and> shape df = (20, 6) \<and> index df = [0..<20] \<and>
   map transaction_id (records df) = map Some [1001..1020] \<and>
   frame_columns df = all_columns"
  by (simp add: DataFrame_data shape_def index_def records_def frame_columns_def
      rows_df dtypes_df upt_20 all_columns_def upto_rec_numeral)

end
