(* ===== verification/Bank_Cleaner.thy ===== *)
theory Bank_Cleaner
  imports Bank_Data
begin

text \<open>
  The cleaner (step 2, lines 38 to 63 of \<^verbatim>\<open>src/bank_analysis.py\<close>): the count of missing
  cells per column, the count of repeated rows, the filter for outlying amounts with the
  branch that prints either the flagged rows or a fixed message, and the retyping of two
  columns as categorical. None of them changes a row. The lemmas characterise each
  check on arbitrary frames and evaluate it on the table of the program.
\<close>

section \<open>Missing cells\<close>

definition isnull_sum :: "frame \<Rightarrow> (column \<times> nat) list" where
  "isnull_sum f = map (\<lambda>c. (c, null_count c f)) (frame_columns f)"

lemma map_fst_isnull_sum [simp]: "map fst (isnull_sum f) = frame_columns f"
  by (simp add: isnull_sum_def comp_def)

lemma isnull_sum_lookup:
  "(c, n) \<in> set (isnull_sum f) \<longleftrightarrow> c \<in> set (frame_columns f) \<and> n = null_count c f"
  by (auto simp: isnull_sum_def)

lemma sum_isnull_sum:
  "(\<Sum>(c, n)\<leftarrow>isnull_sum f. n) = (\<Sum>c\<leftarrow>frame_columns f. null_count c f)"
  by (simp add: isnull_sum_def comp_def)

section \<open>Repeated rows\<close>

text \<open>
  \<^verbatim>\<open>df.duplicated()\<close> marks a row when an earlier row has the same six cells (the first
  occurrence is not marked; index labels are not compared); \<^verbatim>\<open>.sum()\<close> counts the
  marks. The scan keeps the rows seen so far.
\<close>

fun duplicated_from :: "'a list \<Rightarrow> 'a list \<Rightarrow> bool list" where
  "duplicated_from seen [] = []"
| "duplicated_from seen (r # rs) = (r \<in> set seen) # duplicated_from (r # seen) rs"

definition duplicated :: "frame \<Rightarrow> bool list" where
  "duplicated f = duplicated_from [] (records f)"

definition duplicate_rows :: "frame \<Rightarrow> nat" where
  "duplicate_rows f = count_where (\<lambda>b. b) (duplicated f)"

text \<open>The line of line 45: a fixed prefix followed by the count in decimal.\<close>

definition msg_duplicates :: pystr where
  "msg_duplicates = [21457, 29616, 37325, 22797, 34892, 25968, 65306]"

definition duplicates_line :: "frame \<Rightarrow> pystr" where
  "duplicates_line f = msg_duplicates @ str_int (int (duplicate_rows f))"

lemma length_duplicated_from [simp]: "length (duplicated_from seen rs) = length rs"
  by (induction rs arbitrary: seen) auto

lemma nth_duplicated_from:
  "i < length rs \<Longrightarrow> duplicated_from seen rs ! i \<longleftrightarrow> rs ! i \<in> set seen \<union> set (take i rs)"
proof (induction rs arbitrary: seen i)
  case Nil
  then show ?case by simp
next
  case (Cons r rs)
  show ?case
  proof (cases i)
    case 0
    then show ?thesis by simp
  next
    case (Suc j)
    with Cons.prems have "j < length rs" by simp
    then have "duplicated_from (r # seen) rs ! j \<longleftrightarrow> rs ! j \<in> set (r # seen) \<union> set (take j rs)"
      by (rule Cons.IH)
    with Suc show ?thesis by auto
  qed
qed

lemma count_duplicated_from:
  "count_where (\<lambda>b. b) (duplicated_from seen rs) + card (set rs - set seen) = length rs"
proof (induction rs arbitrary: seen)
  case Nil
  show ?case by simp
next
  case (Cons r rs)
  let ?n = "count_where (\<lambda>b. b) (duplicated_from (r # seen) rs)"
  have IH: "?n + card (set rs - set (r # seen)) = length rs"
    by (rule Cons.IH)
  show ?case
  proof (cases "r \<in> set seen")
    case True
    then have "set (r # rs) - set seen = set rs - set (r # seen)"
      by auto
    then have "card (set (r # rs) - set seen) = card (set rs - set (r # seen))"
      by (rule arg_cong)
    moreover have "count_where (\<lambda>b. b) (duplicated_from seen (r # rs)) = Suc ?n"
      using True by simp
    ultimately show ?thesis
      using IH by (simp only: length_Cons add_Suc)
  next
    case False
    then have "set (r # rs) - set seen = insert r (set rs - set (r # seen))"
      by auto
    moreover have "card (insert r (set rs - set (r # seen))) = Suc (card (set rs - set (r # seen)))"
      by (rule card_insert_disjoint) simp_all
    ultimately have "card (set (r # rs) - set seen) = Suc (card (set rs - set (r # seen)))"
      by (rule trans [OF arg_cong])
    moreover have "count_where (\<lambda>b. b) (duplicated_from seen (r # rs)) = ?n"
      using False by simp
    ultimately show ?thesis
      using IH by (simp only: length_Cons add_Suc_right)
  qed
qed

lemma length_duplicated [simp]: "length (duplicated f) = length (rows f)"
  by (simp add: duplicated_def)

lemma duplicate_rows_eq: "duplicate_rows f = length (rows f) - card (set (records f))"
  using count_duplicated_from [of "[]" "records f"]
  by (simp add: duplicate_rows_def duplicated_def)

lemma duplicate_rows_0_iff: "duplicate_rows f = 0 \<longleftrightarrow> distinct (records f)"
proof -
  have "card (set (records f)) \<le> length (records f)"
    by (rule card_length)
  then have "duplicate_rows f = 0 \<longleftrightarrow> card (set (records f)) = length (records f)"
    by (auto simp: duplicate_rows_eq)
  then show ?thesis
    by (metis distinct_card card_distinct)
qed

section \<open>Outlying amounts\<close>

text \<open>
  Line 50 keeps the rows whose amount is above 10000 or below -5000; a comparison with a
  missing amount is false. Lines 51 to 57 print the selection when it has a row and a
  fixed message otherwise.
\<close>

definition is_abnormal :: "transaction \<Rightarrow> bool" where
  "is_abnormal r = (case amount r of None \<Rightarrow> False | Some a \<Rightarrow> a > 10000 \<or> a < - 5000)"

definition abnormal :: "frame \<Rightarrow> frame" where
  "abnormal f = select_rows is_abnormal f"

definition msg_no_outliers :: pystr where
  "msg_no_outliers = [26410, 21457, 29616, 23450, 20041, 30340, 24322, 24120, 20540, 12290]"

definition outlier_report :: "frame \<Rightarrow> frame printed" where
  "outlier_report f =
     (if \<not> empty_frame (abnormal f) then Shown (abnormal f) else Text msg_no_outliers)"

lemma is_abnormal_iff:
  "is_abnormal r \<longleftrightarrow> (\<exists>a. amount r = Some a \<and> (10000 < a \<or> a < - 5000))"
  by (simp add: is_abnormal_def split: option.split)

lemma rows_abnormal: "rows (abnormal f) = filter (\<lambda>(i, r). is_abnormal r) (rows f)"
  by (simp add: abnormal_def rows_select_rows)

lemma dtypes_abnormal [simp]: "dtypes (abnormal f) = dtypes f"
  by (simp add: abnormal_def)

lemma wf_abnormal: "wf_frame f \<Longrightarrow> wf_frame (abnormal f)"
  unfolding abnormal_def by (rule wf_select_rows)

lemma abnormal_idem: "abnormal (abnormal f) = abnormal f"
  by (simp add: abnormal_def select_rows_select_rows)

lemma empty_abnormal_iff:
  assumes "dtypes f \<noteq> []"
  shows "empty_frame (abnormal f) \<longleftrightarrow> (\<forall>r \<in> set (records f). \<not> is_abnormal r)"
  using assms by (auto simp: empty_frame_def rows_abnormal filter_empty_conv records_def)

section \<open>Categorical columns\<close>

text \<open>
  \<^verbatim>\<open>astype('category')\<close> on a column that is not yet categorical takes as categories the
  values present in it, each once, in ascending order, and leaves every cell as it is; a
  column that is categorical already stays as it is. Assigning the result to the column
  replaces its dtype in place.
\<close>

definition present :: "column \<Rightarrow> frame \<Rightarrow> cell list" where
  "present c f = List.map_filter (\<lambda>v. v) (column_cells c f)"

definition categories :: "column \<Rightarrow> frame \<Rightarrow> cell list" where
  "categories c f = sorted_uniq (present c f)"

definition astype_category :: "column \<Rightarrow> frame \<Rightarrow> frame" where
  "astype_category c f =
     f\<lparr>dtypes := map (\<lambda>(c', t). if c' = c
          then (c', case t of Category cats \<Rightarrow> t | _ \<Rightarrow> Category (categories c f))
          else (c', t)) (dtypes f)\<rparr>"

definition clean :: "frame \<Rightarrow> frame" where
  "clean f = astype_category Channel (astype_category TransactionType f)"

lemma set_map_filter_id: "set (List.map_filter (\<lambda>v. v) vs) = {x. Some x \<in> set vs}"
  by (induction vs) (auto simp: map_filter_simps split: option.split)

lemma set_present: "set (present c f) = {x. Some x \<in> set (column_cells c f)}"
  by (simp add: present_def set_map_filter_id)

lemma set_categories [simp]: "set (categories c f) = {x. Some x \<in> set (column_cells c f)}"
  by (simp add: categories_def set_present)

lemma sorted_categories [simp]: "sorted (categories c f)"
  by (simp add: categories_def)

lemma distinct_categories [simp]: "distinct (categories c f)"
  by (simp add: categories_def)

lemma rows_astype_category [simp]: "rows (astype_category c f) = rows f"
  by (simp add: astype_category_def)

lemma records_astype_category [simp]: "records (astype_category c f) = records f"
  by (simp add: records_def)

lemma index_astype_category [simp]: "index (astype_category c f) = index f"
  by (simp add: index_def)

lemma column_cells_astype_category [simp]:
  "column_cells c' (astype_category c f) = column_cells c' f"
  by (simp add: column_cells_def)

lemma frame_columns_astype_category [simp]:
  "frame_columns (astype_category c f) = frame_columns f"
  by (auto simp: frame_columns_def astype_category_def)

lemma categories_astype_category [simp]:
  "categories c' (astype_category c f) = categories c' f"
  by (simp add: categories_def present_def)

lemma dtype_ok_categories: "dtype_ok (Category (categories c f)) (column_cells c f)"
  by (auto simp: list_all_iff split: option.split)

lemma in_dtypes_astype_category:
  assumes "(c', t') \<in> set (dtypes (astype_category c f))"
  shows "(c', t') \<in> set (dtypes f) \<or> (c' = c \<and> t' = Category (categories c f))"
  using assms by (auto simp: astype_category_def split: if_splits dtype.splits)

lemma wf_astype_category:
  assumes "wf_frame f"
  shows "wf_frame (astype_category c f)"
proof (rule wf_frameI)
  show "distinct (index (astype_category c f))"
    using wf_frameD(1) [OF assms] by simp
  show "frame_columns (astype_category c f) = all_columns"
    using wf_frameD(2) [OF assms] by simp
next
  fix c' t'
  assume "(c', t') \<in> set (dtypes (astype_category c f))"
  then consider "(c', t') \<in> set (dtypes f)" | "c' = c" "t' = Category (categories c f)"
    using in_dtypes_astype_category by blast
  then show "dtype_ok t' (column_cells c' (astype_category c f))"
  proof cases
    case 1
    then show ?thesis
      using wf_frameD(3) [OF assms] by simp
  next
    case 2
    then show ?thesis
      by (simp only: column_cells_astype_category dtype_ok_categories)
  qed
qed

lemma wf_clean: "wf_frame f \<Longrightarrow> wf_frame (clean f)"
  by (simp add: clean_def wf_astype_category)

lemma rows_clean [simp]: "rows (clean f) = rows f"
  by (simp add: clean_def)

lemma records_clean [simp]: "records (clean f) = records f"
  by (simp add: records_def)

text \<open>The dtype of a column, by lookup in the association list.\<close>

definition dtype_of :: "column \<Rightarrow> frame \<Rightarrow> dtype option" where
  "dtype_of c f = map_of (dtypes f) c"

lemma dtype_of_astype_category:
  "dtype_of c' (astype_category c f) =
     (if c' = c then map_option (\<lambda>t. case t of Category cats \<Rightarrow> t | _ \<Rightarrow> Category (categories c f))
        (dtype_of c f)
      else dtype_of c' f)"
proof -
  have "map_of (map (\<lambda>(c', t). if c' = c then (c', g t) else (c', t)) ps) c' =
        (if c' = c then map_option g (map_of ps c) else map_of ps c')" for g and ps :: "(column \<times> dtype) list"
    by (induction ps) auto
  then show ?thesis
    by (simp add: dtype_of_def astype_category_def)
qed

section \<open>The checks on the table of the program\<close>

lemma records_df_ids: "map transaction_id (records df) = map Some [1001..1020]"
  by (simp add: records_def rows_df upto_rec_numeral)

lemma distinct_records_df: "distinct (records df)"
proof -
  have "distinct (map transaction_id (records df))"
    unfolding records_df_ids by (simp add: distinct_map upto_rec_numeral)
  then show ?thesis
    by (simp add: distinct_map)
qed

lemma null_count_df: "null_count c df = 0"
  by (cases c) (simp_all add: null_count_def is_null_def records_def rows_df)

lemma isnull_sum_df: "isnull_sum df = map (\<lambda>c. (c, 0)) all_columns"
  using wf_frameD(2) [OF wf_df] by (simp add: isnull_sum_def null_count_df)

lemma rows_abnormal_df:
  "rows (abnormal df) = [(6, \<lparr>transaction_id = Some 1007, customer_id = Some (ascii ''C1005''),
      transaction_type = Some deposit, amount = Some 12000, channel = Some mobile_banking,
      status = Some success\<rparr>)]"
  by (simp add: rows_abnormal rows_df is_abnormal_def)

lemma outlier_report_df: "outlier_report df = Shown (abnormal df)"
  by (simp add: outlier_report_def empty_frame_def rows_abnormal_df dtypes_df)

lemma categories_type_df: "categories TransactionType df = [StrCell withdrawal, StrCell deposit, StrCell transfer]"
  by (simp add: categories_def present_def column_cells_def records_def rows_df map_filter_simps sorted_uniq_def label_defs)

lemma categories_channel_df: "categories Channel df = [StrCell atm, StrCell mobile_banking, StrCell counter, StrCell online_banking]"
  by (simp add: categories_def present_def column_cells_def records_def rows_df map_filter_simps sorted_uniq_def label_defs)

lemma dtypes_clean_df:
  "dtypes (clean df) =
    [(TransactionId, Int64), (CustomerId, Object),
     (TransactionType, Category [StrCell withdrawal, StrCell deposit, StrCell transfer]),
     (Amount, Int64),
     (Channel, Category [StrCell atm, StrCell mobile_banking, StrCell counter, StrCell online_banking]),
     (Status, Object)]"
proof -
  have "dtypes (astype_category TransactionType df) =
    [(TransactionId, Int64), (CustomerId, Object),
     (TransactionType, Category [StrCell withdrawal, StrCell deposit, StrCell transfer]),
     (Amount, Int64), (Channel, Object), (Status, Object)]"
    by (simp add: astype_category_def dtypes_df categories_type_df)
  then show ?thesis
    by (simp add: clean_def astype_category_def [of Channel] categories_channel_df)
qed

lemma duplicate_rows_df: "duplicate_rows df = 0"
  by (simp add: duplicate_rows_0_iff distinct_records_df)

section \<open>Properties of the cleaner\<close>

text \<open>
  C32. The missing-value count of a column and its count of present cells add up to the
  number of rows, and the count is zero exactly when no cell of the column is missing.
\<close>

theorem isnull_sum_counts:
  assumes "(c, n) \<in> set (isnull_sum f)"
  shows "n + non_null_count c f = length (rows f) \<and>
         (n = 0 \<longleftrightarrow> None \<notin> set (column_cells c f))"
  using assms by (simp add: isnull_sum_lookup null_count_plus_non_null null_count_0_iff)

theorem isnull_sum_counts_witness:
  "(Amount, 0) \<in> set (isnull_sum df) \<and> 0 + non_null_count Amount df = length (rows df) \<and>
   None \<notin> set (column_cells Amount df)"
proof -
  have "(Amount, 0) \<in> set (isnull_sum df)"
    by (simp add: isnull_sum_df all_columns_def)
  then show ?thesis
    using isnull_sum_counts [of Amount 0 df] by simp
qed

text \<open>
  C33. The number of repeated rows is the number of rows minus the number of different
  rows, and it is zero exactly when no two rows have the same six cells.
\<close>

theorem duplicate_rows_card:
  "duplicate_rows f = length (rows f) - card (set (records f)) \<and>
   (duplicate_rows f = 0) = distinct (records f)"
  by (simp add: duplicate_rows_eq [symmetric] duplicate_rows_0_iff)

text \<open>
  C5. A row is marked as repeated exactly when an earlier row has the same six cells;
  the first occurrence is never marked.
\<close>

theorem duplicated_marks:
  assumes "i < length (rows f)"
  shows "duplicated f ! i \<longleftrightarrow> (\<exists>j<i. records f ! j = records f ! i)"
proof -
  from assms have "duplicated f ! i \<longleftrightarrow> records f ! i \<in> set (take i (records f))"
    by (simp add: duplicated_def nth_duplicated_from)
  also have "\<dots> \<longleftrightarrow> (\<exists>j<i. records f ! j = records f ! i)"
    using assms by (auto simp: in_set_conv_nth)
  finally show ?thesis .
qed

theorem duplicated_marks_witness:
  "(1::nat) < length (rows (df\<lparr>rows := [rows df ! 4, rows df ! 4]\<rparr>)) \<and>
   duplicated (df\<lparr>rows := [rows df ! 4, rows df ! 4]\<rparr>) = [False, True] \<and>
   (\<exists>j<1. records (df\<lparr>rows := [rows df ! 4, rows df ! 4]\<rparr>) ! j =
      records (df\<lparr>rows := [rows df ! 4, rows df ! 4]\<rparr>) ! 1)"
  using duplicated_marks [of 1 "df\<lparr>rows := [rows df ! 4, rows df ! 4]\<rparr>"]
  by (simp add: duplicated_def records_def)

text \<open>
  C4. The outlier filter keeps exactly the rows whose amount is present and above 10000
  or below -5000, in their order and under their index labels, and changes no dtype.
\<close>

theorem abnormal_rows:
  "((i, r) \<in> set (rows (abnormal f))) =
     ((i, r) \<in> set (rows f) \<and> (\<exists>a. amount r = Some a \<and> (10000 < a \<or> a < - 5000))) \<and>
   subseq (rows (abnormal f)) (rows f) \<and> dtypes (abnormal f) = dtypes f"
  by (simp add: abnormal_def subseq_select_rows is_abnormal_iff)

text \<open>
  C19. On the table of the program the outlier filter returns one row only, the deposit
  of 12000 under index label 6; the transfer of -3500 is not flagged.
\<close>

theorem abnormal_df:
  "map (\<lambda>(i, r). (i, transaction_id r, amount r)) (rows (abnormal df)) =
     [(6, Some 1007, Some 12000)] \<and>
   outlier_report df = Shown (abnormal df) \<and>
   \<not> is_abnormal (snd (rows df ! 15)) \<and> amount (snd (rows df ! 15)) = Some (- 3500)"
  by (simp add: rows_abnormal_df outlier_report_def empty_frame_def dtypes_df)
    (simp add: rows_df is_abnormal_def)

text \<open>
  C18. For a frame with columns, the outlier step prints the fixed message exactly when
  every amount is missing or lies between -5000 and 10000, and prints the flagged rows
  otherwise.
\<close>

theorem outlier_report_branches:
  assumes "dtypes f \<noteq> []"
  shows "outlier_report f =
     (if list_all (\<lambda>r. case amount r of None \<Rightarrow> True | Some a \<Rightarrow> - 5000 \<le> a \<and> a \<le> 10000)
           (records f)
      then Text msg_no_outliers else Shown (abnormal f))"
proof -
  have "(\<not> is_abnormal r) =
        (case amount r of None \<Rightarrow> True | Some a \<Rightarrow> - 5000 \<le> a \<and> a \<le> 10000)" for r
    by (auto simp: is_abnormal_def split: option.split)
  then show ?thesis
    using empty_abnormal_iff [OF assms] by (simp add: outlier_report_def list_all_iff)
qed

theorem outlier_report_branches_witness:
  "dtypes (head df) \<noteq> [] \<and> outlier_report (head df) = Text msg_no_outliers"
proof -
  have d: "dtypes (head df) \<noteq> []"
    by (simp add: head_def dtypes_df)
  show ?thesis
    using outlier_report_branches [OF d] d by (simp add: records_def head_def rows_df)
qed

text \<open>
  C17. Retyping the two columns keeps the frame well formed and leaves every row, index
  label and cell as it was: the cleaner changes no data.
\<close>

theorem clean_preserves:
  assumes "wf_frame f"
  shows "wf_frame (clean f) \<and> rows (clean f) = rows f \<and>
         (\<forall>c. column_cells c (clean f) = column_cells c f) \<and>
         frame_columns (clean f) = frame_columns f"
  using assms by (simp add: wf_clean) (simp add: clean_def)

theorem clean_preserves_witness:
  "wf_frame df \<and> wf_frame (clean df) \<and> rows (clean df) = rows df"
  using clean_preserves [OF wf_df] wf_df by simp

text \<open>
  C34. The categories computed for a column are strictly ascending and are exactly the
  values present in the column; retyping a column that is not categorical stores them as
  its dtype and changes no other dtype.
\<close>

theorem astype_category_dtype:
  "sorted_wrt (<) (categories c f) \<and>
   set (categories c f) = {x. Some x \<in> set (column_cells c f)} \<and>
   dtype_of c' (astype_category c f) =
     (if c' = c
      then map_option (\<lambda>t. case t of Category cats \<Rightarrow> t | _ \<Rightarrow> Category (categories c f))
        (dtype_of c f)
      else dtype_of c' f)"
  by (simp add: dtype_of_astype_category categories_def strict_sorted_sorted_uniq set_present)

text \<open>
  C35. The table of the program has no missing cell in any column and no repeated row,
  and the line printed for the repeated rows ends in the digit 0.
\<close>

theorem df_is_clean:
  "isnull_sum df = map (\<lambda>c. (c, 0)) all_columns \<and> duplicate_rows df = 0 \<and>
   duplicated df = map (\<lambda>r. False) (rows df) \<and>
   duplicates_line df = msg_duplicates @ ascii ''0''"
proof -
  have "duplicated df = map (\<lambda>r. False) (rows df)"
    by (simp add: duplicated_def records_def rows_df)
  then show ?thesis
    by (simp add: isnull_sum_df duplicate_rows_df duplicates_line_def str_int_def digits.simps)
qed

text \<open>
  C36. After cleaning, the transaction types are categorical in the order withdrawal,
  deposit, transfer and the channels in the order ATM, mobile banking, counter, online
  banking (ascending code points); the other four dtypes are unchanged.
\<close>

theorem clean_df_dtypes:
  "dtypes (clean df) =
    [(TransactionId, Int64), (CustomerId, Object),
     (TransactionType, Category [StrCell withdrawal, StrCell deposit, StrCell transfer]),
     (Amount, Int64),
     (Channel, Category [StrCell atm, StrCell mobile_banking, StrCell counter,
        StrCell online_banking]),
     (Status, Object)] \<and>
   withdrawal < deposit \<and> deposit < transfer"
  by (simp add: dtypes_clean_df) (simp add: label_defs)

end
