(* ===== verification/Bank_Analyzer.thy ===== *)
theory Bank_Analyzer
  imports Bank_Cleaner
begin

text \<open>
  The analyzer (step 3, lines 65 to 83 of \<^verbatim>\<open>src/bank_analysis.py\<close>): the descriptive
  statistics of the amounts, the summary per transaction type (count, sum and mean
  rounded to two decimals), the number of transactions per channel in descending order,
  and the failed transactions. Missing cells are skipped as the library skips them.
  Floating-point results are exact rationals here; the standard deviation is the real
  square root of the rational sample variance.
\<close>

section \<open>Descriptive statistics of a column of numbers\<close>

definition amounts_present :: "frame \<Rightarrow> int list" where
  "amounts_present f = List.map_filter amount (records f)"

definition mean :: "int list \<Rightarrow> rat option" where
  "mean xs = (if xs = [] then None else Some (of_int (sum_list xs) / of_nat (length xs)))"

text \<open>The sample variance (divisor \<open>n - 1\<close>), undefined below two values.\<close>

definition variance :: "int list \<Rightarrow> rat option" where
  "variance xs =
     (case mean xs of None \<Rightarrow> None
      | Some m \<Rightarrow> if length xs < 2 then None
          else Some ((\<Sum>x\<leftarrow>xs. (of_int x - m)\<^sup>2) / of_nat (length xs - 1)))"

definition std :: "int list \<Rightarrow> real option" where
  "std xs = map_option (\<lambda>v. sqrt (of_rat v)) (variance xs)"

definition amin :: "int list \<Rightarrow> int option" where
  "amin xs = (case xs of [] \<Rightarrow> None | x # t \<Rightarrow> Some (fold min t x))"

definition amax :: "int list \<Rightarrow> int option" where
  "amax xs = (case xs of [] \<Rightarrow> None | x # t \<Rightarrow> Some (fold max t x))"

text \<open>
  The quantile at \<open>q\<close> by linear interpolation between the two closest ranks of the
  sorted values: position \<open>q * (n - 1)\<close>, its integer part the lower rank.
\<close>

definition interp :: "int list \<Rightarrow> rat \<Rightarrow> rat" where
  "interp s pos =
     (let lo = nat \<lfloor>pos\<rfloor>; frac = pos - of_int \<lfloor>pos\<rfloor>
      in if lo + 1 < length s
         then of_int (s ! lo) + frac * of_int (s ! (lo + 1) - s ! lo)
         else of_int (s ! (length s - 1)))"

definition quantile :: "rat \<Rightarrow> int list \<Rightarrow> rat option" where
  "quantile q xs =
     (if xs = [] then None else Some (interp (sort xs) (q * of_nat (length xs - 1))))"

record description =
  d_count :: nat
  d_mean :: "rat option"
  d_std :: "real option"
  d_min :: "rat option"
  d_q25 :: "rat option"
  d_q50 :: "rat option"
  d_q75 :: "rat option"
  d_max :: "rat option"

definition describe :: "int list \<Rightarrow> description" where
  "describe xs =
     \<lparr>d_count = length xs, d_mean = mean xs, d_std = std xs,
      d_min = map_option of_int (amin xs),
      d_q25 = quantile (1 / 4) xs, d_q50 = quantile (1 / 2) xs, d_q75 = quantile (3 / 4) xs,
      d_max = map_option of_int (amax xs)\<rparr>"

definition describe_amount :: "frame \<Rightarrow> description" where
  "describe_amount f = describe (amounts_present f)"

lemmas describe_defs [stat_defs] =
  amounts_present_def mean_def variance_def std_def amin_def amax_def interp_def quantile_def
  describe_def describe_amount_def

section \<open>Grouping by a column\<close>

text \<open>
  The keys of a group-by are the categories of a categorical column (every category,
  whether a row has it or not) and otherwise the values present, ascending. A row whose
  key is missing belongs to no group. Each group aggregates the amounts present in it:
  how many, their sum, their mean.
\<close>

definition group_keys :: "column \<Rightarrow> frame \<Rightarrow> cell list" where
  "group_keys c f = (case dtype_of c f of Some (Category cats) \<Rightarrow> cats | _ \<Rightarrow> categories c f)"

definition group_amounts :: "column \<Rightarrow> cell \<Rightarrow> frame \<Rightarrow> int list" where
  "group_amounts c k f =
     List.map_filter amount (filter (\<lambda>r. cell_of c r = Some k) (records f))"

record summary =
  g_key :: cell
  g_count :: nat
  g_sum :: int
  g_mean :: "rat option"

definition agg :: "cell \<Rightarrow> int list \<Rightarrow> summary" where
  "agg k xs = \<lparr>g_key = k, g_count = length xs, g_sum = sum_list xs, g_mean = mean xs\<rparr>"

definition groupby_agg :: "column \<Rightarrow> frame \<Rightarrow> summary list" where
  "groupby_agg c f = map (\<lambda>k. agg k (group_amounts c k f)) (group_keys c f)"

definition round_summary :: "summary list \<Rightarrow> summary list" where
  "round_summary gs = map (\<lambda>g. g\<lparr>g_mean := map_option round2 (g_mean g)\<rparr>) gs"

definition type_summary :: "frame \<Rightarrow> summary list" where
  "type_summary f = round_summary (groupby_agg TransactionType f)"

section \<open>Counting the values of a column\<close>

text \<open>
  \<^verbatim>\<open>value_counts()\<close> counts the rows per value, missing cells left out, and orders
  the result by descending count. Values of equal count stay in the order they are
  listed in: the categories of a categorical column, and otherwise the values in the
  order of their first occurrence.
\<close>

definition sort_desc :: "('a \<times> nat) list \<Rightarrow> ('a \<times> nat) list" where
  "sort_desc xs = rev (sort_key snd (rev xs))"

definition count_keys :: "column \<Rightarrow> frame \<Rightarrow> cell list" where
  "count_keys c f =
     (case dtype_of c f of Some (Category cats) \<Rightarrow> cats | _ \<Rightarrow> uniq_first (present c f))"

definition key_count :: "column \<Rightarrow> cell \<Rightarrow> frame \<Rightarrow> nat" where
  "key_count c k f = count_where (\<lambda>r. cell_of c r = Some k) (records f)"

definition value_counts :: "column \<Rightarrow> frame \<Rightarrow> (cell \<times> nat) list" where
  "value_counts c f = sort_desc (map (\<lambda>k. (k, key_count c k f)) (count_keys c f))"

definition channel_count :: "frame \<Rightarrow> (cell \<times> nat) list" where
  "channel_count f = value_counts Channel f"

section \<open>Failed transactions\<close>

definition is_failed :: "transaction \<Rightarrow> bool" where
  "is_failed r \<longleftrightarrow> status r = Some failure"

definition failed_transactions :: "frame \<Rightarrow> frame" where
  "failed_transactions f = select_rows is_failed f"

section \<open>Keys of well-formed frames\<close>

lemma dtype_of_SomeD: "dtype_of c f = Some t \<Longrightarrow> (c, t) \<in> set (dtypes f)"
  by (simp add: dtype_of_def map_of_SomeD)

lemma category_covers:
  assumes "wf_frame f" and "dtype_of c f = Some (Category cats)"
  shows "sorted cats" and "distinct cats" and "{x. Some x \<in> set (column_cells c f)} \<subseteq> set cats"
  using wf_frameD(3) [OF assms(1) dtype_of_SomeD [OF assms(2)]]
  by (auto simp: list_all_iff split: option.splits)

lemma group_keys_ok:
  assumes "wf_frame f"
  shows "sorted (group_keys c f)" and "distinct (group_keys c f)"
    and "{x. Some x \<in> set (column_cells c f)} \<subseteq> set (group_keys c f)"
  using category_covers [OF assms, of c]
  by (auto simp: group_keys_def split: option.splits dtype.splits)

lemma count_keys_ok:
  assumes "wf_frame f"
  shows "distinct (count_keys c f)"
    and "{x. Some x \<in> set (column_cells c f)} \<subseteq> set (count_keys c f)"
  using category_covers [OF assms, of c]
  by (auto simp: count_keys_def set_present split: option.splits dtype.splits)

lemma group_keys_astype_category:
  assumes "dtype_of c f = Some t" and "t \<in> {Int64, Float64, Object}"
  shows "group_keys c (astype_category c f) = categories c f"
  using assms by (auto simp: group_keys_def dtype_of_astype_category)

lemma key_present_iff:
  assumes "{x. Some x \<in> set (column_cells c f)} \<subseteq> set ks" and "r \<in> set (records f)"
  shows "cell_of c r \<in> Some ` set ks \<longleftrightarrow> cell_of c r \<noteq> None"
proof (cases "cell_of c r")
  case None
  then show ?thesis by auto
next
  case (Some a)
  with assms(2) have "Some a \<in> set (column_cells c f)"
    by (auto simp: column_cells_def image_iff intro: bexI [of _ r])
  with assms(1) have "a \<in> set ks" by blast
  with Some show ?thesis by simp
qed

section \<open>Every row in exactly one group\<close>

lemma sum_counts_over_keys:
  assumes "distinct ks" and "{x. Some x \<in> set (column_cells c f)} \<subseteq> set ks"
  shows "(\<Sum>k\<leftarrow>ks. count_where (\<lambda>r. cell_of c r = Some k \<and> P r) (records f)) =
         count_where (\<lambda>r. cell_of c r \<noteq> None \<and> P r) (records f)"
proof -
  let ?rs = "filter P (records f)"
  have "(\<Sum>k\<leftarrow>ks. count_where (\<lambda>r. cell_of c r = Some k \<and> P r) (records f)) =
        (\<Sum>k\<leftarrow>map Some ks. count_where (\<lambda>r. cell_of c r = k) ?rs)"
    by (simp add: count_where_filter comp_def conj_commute)
  also have "\<dots> = count_where (\<lambda>r. cell_of c r \<in> set (map Some ks)) ?rs"
    using assms(1) by (intro count_where_groups) (simp add: distinct_map)
  also have "\<dots> = count_where (\<lambda>r. cell_of c r \<noteq> None) ?rs"
    using key_present_iff [OF assms(2)] by (intro count_where_cong) simp
  finally show ?thesis
    by (simp add: count_where_filter conj_commute)
qed

lemma sum_sums_over_keys:
  assumes "distinct ks" and "{x. Some x \<in> set (column_cells c f)} \<subseteq> set ks"
  shows "(\<Sum>k\<leftarrow>ks. sum_list (group_amounts c k f)) =
         sum_list (List.map_filter amount (filter (\<lambda>r. cell_of c r \<noteq> None) (records f)))"
proof -
  let ?v = "\<lambda>r. case amount r of None \<Rightarrow> 0 | Some a \<Rightarrow> a"
  have "(\<Sum>k\<leftarrow>ks. sum_list (group_amounts c k f)) =
        (\<Sum>k\<leftarrow>map Some ks. \<Sum>r\<leftarrow>filter (\<lambda>r. cell_of c r = k) (records f). ?v r)"
    by (simp add: group_amounts_def sum_list_map_filter_option comp_def)
  also have "\<dots> = (\<Sum>r\<leftarrow>filter (\<lambda>r. cell_of c r \<in> set (map Some ks)) (records f). ?v r)"
    using assms(1) by (intro sum_list_groups) (simp add: distinct_map)
  also have "filter (\<lambda>r. cell_of c r \<in> set (map Some ks)) (records f) =
             filter (\<lambda>r. cell_of c r \<noteq> None) (records f)"
    using key_present_iff [OF assms(2)] by (intro filter_cong) simp_all
  finally show ?thesis
    by (simp add: sum_list_map_filter_option)
qed

lemma map_g_count_groupby_agg:
  "map g_count (groupby_agg c f) =
   map (\<lambda>k. count_where (\<lambda>r. cell_of c r = Some k \<and> amount r \<noteq> None) (records f))
     (group_keys c f)"
  by (simp add: groupby_agg_def agg_def group_amounts_def length_map_filter count_where_filter
      comp_def)

lemma map_g_sum_groupby_agg:
  "map g_sum (groupby_agg c f) = map (\<lambda>k. sum_list (group_amounts c k f)) (group_keys c f)"
  by (simp add: groupby_agg_def agg_def comp_def)

lemma map_g_key_groupby_agg [simp]: "map g_key (groupby_agg c f) = group_keys c f"
  by (simp add: groupby_agg_def agg_def comp_def)

lemma groupby_counts_total:
  assumes "wf_frame f"
  shows "sum_list (map g_count (groupby_agg c f)) =
         count_where (\<lambda>r. cell_of c r \<noteq> None \<and> amount r \<noteq> None) (records f)"
  unfolding map_g_count_groupby_agg
  using group_keys_ok(2,3) [OF assms] by (rule sum_counts_over_keys)

lemma groupby_sums_total:
  assumes "wf_frame f"
  shows "sum_list (map g_sum (groupby_agg c f)) =
         sum_list (List.map_filter amount (filter (\<lambda>r. cell_of c r \<noteq> None) (records f)))"
  unfolding map_g_sum_groupby_agg
  using group_keys_ok(2,3) [OF assms] by (rule sum_sums_over_keys)

lemma round_summary_fields [simp]:
  "map g_key (round_summary gs) = map g_key gs"
  "map g_count (round_summary gs) = map g_count gs"
  "map g_sum (round_summary gs) = map g_sum gs"
  "map g_mean (round_summary gs) = map (map_option round2 \<circ> g_mean) gs"
  by (simp_all add: round_summary_def comp_def)

section \<open>Extremes, mean and variance\<close>

lemma amin_eq: "amin xs = (if xs = [] then None else Some (Min (set xs)))"
  by (cases xs) (simp_all add: amin_def Min.set_eq_fold [symmetric])

lemma amax_eq: "amax xs = (if xs = [] then None else Some (Max (set xs)))"
  by (cases xs) (simp_all add: amax_def Max.set_eq_fold [symmetric])

lemma sum_list_lower:
  fixes xs :: "int list"
  assumes "\<And>x. x \<in> set xs \<Longrightarrow> a \<le> x"
  shows "a * int (length xs) \<le> sum_list xs"
  using assms by (induction xs) (auto simp: algebra_simps add_mono)

lemma sum_list_upper:
  fixes xs :: "int list"
  assumes "\<And>x. x \<in> set xs \<Longrightarrow> x \<le> b"
  shows "sum_list xs \<le> b * int (length xs)"
  using assms by (induction xs) (auto simp: algebra_simps add_mono)

lemma mean_bounds:
  assumes "mean xs = Some m"
  shows "of_int (Min (set xs)) \<le> m" and "m \<le> of_int (Max (set xs))"
proof -
  from assms have ne: "xs \<noteq> []" and m: "m = of_int (sum_list xs) / of_nat (length xs)"
    by (auto simp: mean_def split: if_splits)
  then have pos: "(0::rat) < of_nat (length xs)" by simp
  have "Min (set xs) * int (length xs) \<le> sum_list xs"
    by (rule sum_list_lower) simp
  then have "(of_int (Min (set xs) * int (length xs)) :: rat) \<le> of_int (sum_list xs)"
    by (simp only: of_int_le_iff)
  with pos show "of_int (Min (set xs)) \<le> m"
    by (simp add: m field_simps)
  have "sum_list xs \<le> Max (set xs) * int (length xs)"
    by (rule sum_list_upper) simp
  then have "(of_int (sum_list xs) :: rat) \<le> of_int (Max (set xs) * int (length xs))"
    by (simp only: of_int_le_iff)
  with pos show "m \<le> of_int (Max (set xs))"
    by (simp add: m field_simps)
qed

lemma variance_nonneg:
  assumes "variance xs = Some v"
  shows "0 \<le> v"
proof -
  from assms obtain m where v: "v = (\<Sum>x\<leftarrow>xs. (of_int x - m)\<^sup>2) / of_nat (length xs - 1)"
    by (auto simp: variance_def split: option.splits if_splits)
  have "(0::rat) \<le> (\<Sum>x\<leftarrow>xs. (of_int x - m)\<^sup>2)"
    by (rule sum_list_nonneg) auto
  then show ?thesis
    unfolding v by (rule divide_nonneg_nonneg) simp
qed

lemma std_squared: "std xs = Some sd \<Longrightarrow> \<exists>v. variance xs = Some v \<and> sd\<^sup>2 = of_rat v \<and> 0 \<le> sd"
  by (auto simp: std_def dest: variance_nonneg)

lemma variance_None_iff: "variance xs = None \<longleftrightarrow> length xs < 2"
  by (auto simp: variance_def mean_def split: option.splits)

section \<open>Interpolation between the ranks of a sorted list\<close>

lemma lerp_bounds:
  fixes a b t :: rat
  assumes "a \<le> b" and "0 \<le> t" and "t \<le> 1"
  shows "a \<le> a + t * (b - a)" and "a + t * (b - a) \<le> b"
proof -
  from assms show "a \<le> a + t * (b - a)" by simp
  have "t * (b - a) \<le> 1 * (b - a)"
    using assms by (intro mult_right_mono) simp_all
  then show "a + t * (b - a) \<le> b" by simp
qed

lemma frac_bounds: "0 \<le> pos - of_int \<lfloor>pos\<rfloor>" "pos - of_int \<lfloor>pos\<rfloor> \<le> (1::rat)"
  by linarith+

lemma interp_between:
  assumes "sorted s" and "nat \<lfloor>pos\<rfloor> + 1 < length s"
  shows "of_int (s ! nat \<lfloor>pos\<rfloor>) \<le> interp s pos" and "interp s pos \<le> of_int (s ! (nat \<lfloor>pos\<rfloor> + 1))"
proof -
  let ?lo = "nat \<lfloor>pos\<rfloor>"
  have "s ! ?lo \<le> s ! (?lo + 1)"
    using assms by (intro sorted_nth_mono) simp_all
  then have le: "(of_int (s ! ?lo) :: rat) \<le> of_int (s ! (?lo + 1))"
    by simp
  have eq: "interp s pos = of_int (s ! ?lo) + (pos - of_int \<lfloor>pos\<rfloor>) * (of_int (s ! (?lo + 1)) - of_int (s ! ?lo))"
    using assms(2) by (simp add: interp_def Let_def)
  show "of_int (s ! ?lo) \<le> interp s pos" "interp s pos \<le> of_int (s ! (?lo + 1))"
    unfolding eq using lerp_bounds [OF le frac_bounds] by blast+
qed

lemma interp_last:
  assumes "\<not> nat \<lfloor>pos\<rfloor> + 1 < length s"
  shows "interp s pos = of_int (s ! (length s - 1))"
  using assms by (simp add: interp_def Let_def)

lemma interp_bounds:
  assumes "sorted s" and "s \<noteq> []"
  shows "of_int (s ! 0) \<le> interp s pos" and "interp s pos \<le> of_int (s ! (length s - 1))"
proof -
  have first: "s ! 0 \<le> s ! i" if "i < length s" for i
    using assms(1) that by (intro sorted_nth_mono) simp_all
  have last: "s ! i \<le> s ! (length s - 1)" if "i < length s" for i
    using assms that by (intro sorted_nth_mono) (simp_all add: Suc_leI)
  show "of_int (s ! 0) \<le> interp s pos"
  proof (cases "nat \<lfloor>pos\<rfloor> + 1 < length s")
    case True
    then have "(of_int (s ! 0) :: rat) \<le> of_int (s ! nat \<lfloor>pos\<rfloor>)"
      using first [of "nat \<lfloor>pos\<rfloor>"] by simp
    with interp_between(1) [OF assms(1) True] show ?thesis by simp
  next
    case False
    with assms(2) first [of "length s - 1"] show ?thesis
      by (simp add: interp_last)
  qed
  show "interp s pos \<le> of_int (s ! (length s - 1))"
  proof (cases "nat \<lfloor>pos\<rfloor> + 1 < length s")
    case True
    then have "(of_int (s ! (nat \<lfloor>pos\<rfloor> + 1)) :: rat) \<le> of_int (s ! (length s - 1))"
      using last [of "nat \<lfloor>pos\<rfloor> + 1"] by simp
    with interp_between(2) [OF assms(1) True] show ?thesis by simp
  next
    case False
    then show ?thesis by (simp add: interp_last)
  qed
qed

lemma interp_mono:
  assumes "sorted s" and "s \<noteq> []" and "0 \<le> pos" and "pos \<le> pos'"
  shows "interp s pos \<le> interp s pos'"
proof (cases "nat \<lfloor>pos'\<rfloor> + 1 < length s")
  case False
  then show ?thesis
    using interp_bounds(2) [OF assms(1,2)] by (simp add: interp_last)
next
  case hi: True
  from assms(3,4) have fl: "0 \<le> \<lfloor>pos\<rfloor>" "\<lfloor>pos\<rfloor> \<le> \<lfloor>pos'\<rfloor>"
    by (simp_all add: floor_mono)
  with hi have lo_ok: "nat \<lfloor>pos\<rfloor> + 1 < length s" by simp
  show ?thesis
  proof (cases "\<lfloor>pos\<rfloor> = \<lfloor>pos'\<rfloor>")
    case False
    with fl have "nat \<lfloor>pos\<rfloor> + 1 \<le> nat \<lfloor>pos'\<rfloor>" by linarith
    then have "s ! (nat \<lfloor>pos\<rfloor> + 1) \<le> s ! nat \<lfloor>pos'\<rfloor>"
      using assms(1) hi by (intro sorted_nth_mono) simp_all
    then have "(of_int (s ! (nat \<lfloor>pos\<rfloor> + 1)) :: rat) \<le> of_int (s ! nat \<lfloor>pos'\<rfloor>)"
      by simp
    with interp_between(2) [OF assms(1) lo_ok] interp_between(1) [OF assms(1) hi]
    show ?thesis by linarith
  next
    case True
    have d: "(0::rat) \<le> of_int (s ! (nat \<lfloor>pos'\<rfloor> + 1)) - of_int (s ! nat \<lfloor>pos'\<rfloor>)"
      using assms(1) hi by (simp add: sorted_nth_mono)
    have "(pos - of_int \<lfloor>pos'\<rfloor>) * (of_int (s ! (nat \<lfloor>pos'\<rfloor> + 1)) - of_int (s ! nat \<lfloor>pos'\<rfloor>))
        \<le> (pos' - of_int \<lfloor>pos'\<rfloor>) * (of_int (s ! (nat \<lfloor>pos'\<rfloor> + 1)) - of_int (s ! nat \<lfloor>pos'\<rfloor>))"
      using assms(4) d by (intro mult_right_mono) simp_all
    then show ?thesis
      using hi True by (simp add: interp_def Let_def)
  qed
qed

section \<open>Quantiles\<close>

lemma sort_nth_0: "xs \<noteq> [] \<Longrightarrow> sort xs ! 0 = Min (set xs)"
proof -
  assume ne: "xs \<noteq> []"
  then have s: "sort xs \<noteq> []" by (metis length_0_conv length_sort)
  have "sort xs ! 0 \<in> set (sort xs)"
    using ne by (intro nth_mem) simp
  moreover have "sort xs ! 0 \<le> x" if "x \<in> set xs" for x
  proof -
    from that obtain i where "i < length (sort xs)" "sort xs ! i = x"
      by (metis in_set_conv_nth set_sort)
    then show ?thesis
      using sorted_nth_mono [of "sort xs" 0 i] by simp
  qed
  ultimately show ?thesis
    by (intro Min_eqI [symmetric]) simp_all
qed

lemma sort_nth_last: "xs \<noteq> [] \<Longrightarrow> sort xs ! (length xs - 1) = Max (set xs)"
proof -
  assume ne: "xs \<noteq> []"
  then have n: "length xs - 1 < length (sort xs)" by simp
  then have "sort xs ! (length xs - 1) \<in> set (sort xs)"
    by (rule nth_mem)
  moreover have "x \<le> sort xs ! (length xs - 1)" if "x \<in> set xs" for x
  proof -
    from that obtain i where "i < length (sort xs)" "sort xs ! i = x"
      by (metis in_set_conv_nth set_sort)
    then show ?thesis
      using sorted_nth_mono [of "sort xs" i "length xs - 1"] n by auto
  qed
  ultimately show ?thesis
    by (intro Max_eqI [symmetric]) simp_all
qed

lemma quantile_Some: "xs \<noteq> [] \<Longrightarrow> quantile q xs = Some (interp (sort xs) (q * of_nat (length xs - 1)))"
  by (simp add: quantile_def)

lemma quantile_None_iff: "quantile q xs = None \<longleftrightarrow> xs = []"
  by (simp add: quantile_def)

lemma quantile_bounds:
  assumes "quantile q xs = Some v"
  shows "of_int (Min (set xs)) \<le> v" and "v \<le> of_int (Max (set xs))"
proof -
  from assms have ne: "xs \<noteq> []" and v: "v = interp (sort xs) (q * of_nat (length xs - 1))"
    by (auto simp: quantile_def split: if_splits)
  from ne have s: "sort xs \<noteq> []" by (metis length_0_conv length_sort)
  show "of_int (Min (set xs)) \<le> v"
    using interp_bounds(1) [OF sorted_sort s] by (simp add: v sort_nth_0 ne)
  have "sort xs ! (length (sort xs) - 1) = Max (set xs)"
    using sort_nth_last [OF ne] by simp
  then show "v \<le> of_int (Max (set xs))"
    using interp_bounds(2) [OF sorted_sort s, of "q * of_nat (length xs - 1)"]
    by (simp only: v)
qed

lemma quantile_mono:
  assumes "0 \<le> q" and "q \<le> q'" and "quantile q xs = Some v" and "quantile q' xs = Some v'"
  shows "v \<le> v'"
proof -
  from assms(3) have ne: "xs \<noteq> []"
    by (auto simp: quantile_def split: if_splits)
  then have s: "sort xs \<noteq> []" by (metis length_0_conv length_sort)
  have "interp (sort xs) (q * of_nat (length xs - 1)) \<le> interp (sort xs) (q' * of_nat (length xs - 1))"
    using assms(1,2) by (intro interp_mono [OF sorted_sort s] mult_right_mono mult_nonneg_nonneg) simp_all
  with assms(3,4) ne show ?thesis
    by (simp add: quantile_def)
qed

lemma quantile_0: "xs \<noteq> [] \<Longrightarrow> quantile 0 xs = Some (of_int (Min (set xs)))"
  by (cases "1 < length xs") (auto simp: quantile_def interp_def sort_nth_0 Suc_lessI
      dest!: sort_nth_0 [symmetric])

section \<open>Descending stable sort\<close>

lemma mset_sort_desc [simp]: "mset (sort_desc xs) = mset xs"
  by (simp add: sort_desc_def)

lemma set_sort_desc [simp]: "set (sort_desc xs) = set xs"
  by (simp add: sort_desc_def)

lemma length_sort_desc [simp]: "length (sort_desc xs) = length xs"
  by (simp add: sort_desc_def)

lemma sorted_sort_desc: "sorted (rev (map snd (sort_desc xs)))"
  by (simp add: sort_desc_def rev_map [symmetric] sorted_sort_key)

lemma sort_desc_stable: "filter (\<lambda>p. snd p = n) (sort_desc xs) = filter (\<lambda>p. snd p = n) xs"
proof -
  have "filter (\<lambda>p. snd p = n) (sort_desc xs) = rev (filter (\<lambda>p. snd p = n) (sort_key snd (rev xs)))"
    by (simp add: sort_desc_def rev_filter)
  also have "\<dots> = rev (filter (\<lambda>p. snd p = n) (rev xs))"
    by (simp only: sort_key_stable)
  finally show ?thesis
    by (simp add: rev_filter)
qed

lemma sum_list_sort_desc: "sum_list (map snd (sort_desc xs)) = sum_list (map snd xs)"
proof -
  have "mset (map snd (sort_desc xs)) = mset (map snd xs)"
    by simp
  then show ?thesis
    by (metis sum_mset_sum_list)
qed

lemma sort_desc_all_equal:
  assumes "\<And>p. p \<in> set xs \<Longrightarrow> snd p = n"
  shows "sort_desc xs = xs"
proof -
  have "filter (\<lambda>p. snd p = n) (sort_desc xs) = sort_desc xs"
    using assms by (intro filter_True) simp
  moreover have "filter (\<lambda>p. snd p = n) xs = xs"
    using assms by (intro filter_True) simp
  ultimately show ?thesis
    using sort_desc_stable [of n xs] by simp
qed

section \<open>Value counts\<close>

lemma map_fst_value_counts: "mset (map fst (value_counts c f)) = mset (count_keys c f)"
  by (simp add: value_counts_def multiset.map_comp comp_def)

lemma value_counts_lookup:
  "(k, n) \<in> set (value_counts c f) \<longleftrightarrow> k \<in> set (count_keys c f) \<and> n = key_count c k f"
  by (auto simp: value_counts_def)

lemma value_counts_total:
  assumes "wf_frame f"
  shows "sum_list (map snd (value_counts c f)) = non_null_count c f"
proof -
  have "sum_list (map snd (value_counts c f)) =
        (\<Sum>k\<leftarrow>count_keys c f. count_where (\<lambda>r. cell_of c r = Some k \<and> True) (records f))"
    by (simp add: value_counts_def sum_list_sort_desc comp_def key_count_def)
  also have "\<dots> = count_where (\<lambda>r. cell_of c r \<noteq> None \<and> True) (records f)"
    using count_keys_ok [OF assms] by (rule sum_counts_over_keys)
  finally show ?thesis
    by (simp add: non_null_count_def is_null_def)
qed

section \<open>Failed transactions\<close>

lemma rows_failed_transactions:
  "rows (failed_transactions f) = filter (\<lambda>(i, r). status r = Some failure) (rows f)"
  by (simp add: failed_transactions_def rows_select_rows is_failed_def)

lemma wf_failed_transactions: "wf_frame f \<Longrightarrow> wf_frame (failed_transactions f)"
  unfolding failed_transactions_def by (rule wf_select_rows)

section \<open>The analysis of the table of the program\<close>

lemma amounts_present_df:
  "amounts_present df =
     [5000, - 2000, - 1500, 8000, - 500, - 3000, 12000, - 2200, 6000, - 4000,
      - 1000, 7000, - 2500, 9000, - 1200, - 3500, 4500, - 800, 3000, - 1500]"
  by (simp add: amounts_present_def records_def rows_df map_filter_simps)

lemma sort_amounts_df:
  "sort (amounts_present df) =
     [- 4000, - 3500, - 3000, - 2500, - 2200, - 2000, - 1500, - 1500, - 1200, - 1000,
      - 800, - 500, 3000, 4500, 5000, 6000, 7000, 8000, 9000, 12000]"
  by (simp add: amounts_present_df)

lemma mean_df: "mean (amounts_present df) = Some 1540"
  by (simp add: mean_def amounts_present_df)

lemma variance_df: "variance (amounts_present df) = Some (440988000 / 19)"
  by (simp add: variance_def mean_df) (simp add: amounts_present_df)

lemma length_amounts_df: "length (amounts_present df) = 20" "amounts_present df \<noteq> []"
  by (simp_all add: amounts_present_df)

lemma interp_eval:
  assumes "of_nat lo \<le> pos" "pos < of_nat lo + 1"
  shows "interp s pos =
     (if lo + 1 < length s then of_int (s ! lo) + (pos - of_nat lo) * of_int (s ! (lo + 1) - s ! lo)
      else of_int (s ! (length s - 1)))"
proof -
  have "\<lfloor>pos\<rfloor> = int lo"
    using assms by (intro floor_unique) simp_all
  then show ?thesis
    by (simp add: interp_def Let_def)
qed

lemma quantiles_df:
  "quantile (1 / 4) (amounts_present df) = Some (- 2050)"
  "quantile (1 / 2) (amounts_present df) = Some (- 900)"
  "quantile (3 / 4) (amounts_present df) = Some 5250"
  by (simp_all add: quantile_def length_amounts_df sort_amounts_df
      interp_eval [of 4 "19 / 4"] interp_eval [of 9 "19 / 2"] interp_eval [of 14 "57 / 4"])

lemma extremes_df: "amin (amounts_present df) = Some (- 4000)" "amax (amounts_present df) = Some 12000"
  by (simp_all add: amin_def amax_def amounts_present_df)

lemma dtype_of_clean_df:
  "dtype_of TransactionType (clean df) =
     Some (Category [StrCell withdrawal, StrCell deposit, StrCell transfer])"
  "dtype_of Channel (clean df) =
     Some (Category [StrCell atm, StrCell mobile_banking, StrCell counter, StrCell online_banking])"
  by (simp_all add: dtype_of_def dtypes_clean_df)

lemma group_amounts_clean [simp]: "group_amounts c k (clean f) = group_amounts c k f"
  by (simp add: group_amounts_def)

lemma key_count_clean [simp]: "key_count c k (clean f) = key_count c k f"
  by (simp add: key_count_def)

lemma key_count_channel_df:
  "key_count Channel (StrCell atm) df = 5"
  "key_count Channel (StrCell mobile_banking) df = 5"
  "key_count Channel (StrCell counter) df = 5"
  "key_count Channel (StrCell online_banking) df = 5"
  by (simp_all add: key_count_def records_def rows_df label_defs)

lemma group_amounts_df:
  "group_amounts TransactionType (StrCell withdrawal) df = [- 2000, - 500, - 2200, - 1000, - 1200, - 800]"
  "group_amounts TransactionType (StrCell deposit) df = [5000, 8000, 12000, 6000, 7000, 9000, 4500, 3000]"
  "group_amounts TransactionType (StrCell transfer) df = [- 1500, - 3000, - 4000, - 2500, - 3500, - 1500]"
  by (simp_all add: group_amounts_def records_def rows_df map_filter_simps label_defs)

lemma type_summary_clean_df:
  "type_summary (clean df) =
     [\<lparr>g_key = StrCell withdrawal, g_count = 6, g_sum = - 7700, g_mean = Some (- 128333 / 100)\<rparr>,
      \<lparr>g_key = StrCell deposit, g_count = 8, g_sum = 54500, g_mean = Some (68125 / 10)\<rparr>,
      \<lparr>g_key = StrCell transfer, g_count = 6, g_sum = - 16000, g_mean = Some (- 266667 / 100)\<rparr>]"
proof -
  have r: "round2 (- (3850 / 3)) = - (128333 / 100)" "round2 (13625 / 2) = 13625 / 2"
    "round2 (- (8000 / 3)) = - (266667 / 100)"
    using round2_div_correct [of 3 "- 3850"] round2_div_correct [of 2 13625]
      round2_div_correct [of 3 "- 8000"]
    by (simp_all add: round2_div_def rhe_div_def)
  show ?thesis
    by (simp add: type_summary_def groupby_agg_def group_keys_def dtype_of_clean_df
        group_amounts_clean group_amounts_df agg_def mean_def round_summary_def r)
qed

lemma channel_count_clean_df:
  "channel_count (clean df) =
     [(StrCell atm, 5), (StrCell mobile_banking, 5), (StrCell counter, 5),
      (StrCell online_banking, 5)]"
  by (simp add: channel_count_def value_counts_def count_keys_def dtype_of_clean_df
      key_count_channel_df sort_desc_def)

lemma rows_failed_df:
  "rows (failed_transactions df) =
     [(4, \<lparr>transaction_id = Some 1005, customer_id = Some (ascii ''C1004''),
        transaction_type = Some withdrawal, amount = Some (- 500), channel = Some atm,
        status = Some failure\<rparr>)]"
  by (simp add: rows_failed_transactions rows_df) (simp add: label_defs)


lemma value_counts_status_df:
  "value_counts Status df = [(StrCell success, 19), (StrCell failure, 1)]"
  by (simp add: value_counts_def count_keys_def dtype_of_def dtypes_df present_def
      column_cells_def records_def rows_df uniq_first_def key_count_def sort_desc_def
      map_filter_simps label_defs sort_key_def)

section \<open>What the analyzer guarantees\<close>

text \<open>
  C2. In the summary per group of a well-formed frame the keys are strictly ascending,
  the counts add up to the number of rows that have both a key and an amount, and the
  sums add up to the sum of the amounts of the rows that have a key: every such row is
  counted in exactly one group.
\<close>

theorem groupby_partition:
  assumes "wf_frame f"
  shows "sorted_wrt (<) (map g_key (type_summary f)) \<and>
         sum_list (map g_count (type_summary f)) =
           count_where (\<lambda>r. transaction_type r \<noteq> None \<and> amount r \<noteq> None) (records f) \<and>
         sum_list (map g_sum (type_summary f)) =
           sum_list (List.map_filter amount
             (filter (\<lambda>r. transaction_type r \<noteq> None) (records f)))"
  using groupby_counts_total [OF assms, of TransactionType]
    groupby_sums_total [OF assms, of TransactionType] group_keys_ok(1,2) [OF assms, of TransactionType]
  by (simp add: type_summary_def strict_sorted_iff)

theorem groupby_partition_witness:
  "wf_frame (clean df) \<and> map g_count (type_summary (clean df)) = [6, 8, 6] \<and>
   sum_list (map g_count (type_summary (clean df))) = length (rows df) \<and>
   sum_list (map g_sum (type_summary (clean df))) = sum_list (amounts_present df)"
  using groupby_partition [OF wf_clean [OF wf_df]] wf_clean [OF wf_df]
  by (simp add: type_summary_clean_df amounts_present_df rows_df)

text \<open>
  C20. On the cleaned table of the program the summary per transaction type is, in this
  order: withdrawals 6, -7700, -1283.33; deposits 8, 54500, 6812.5; transfers 6, -16000,
  -2666.67.
\<close>

theorem type_summary_df:
  "type_summary (clean df) =
     [\<lparr>g_key = StrCell withdrawal, g_count = 6, g_sum = - 7700, g_mean = Some (- 128333 / 100)\<rparr>,
      \<lparr>g_key = StrCell deposit, g_count = 8, g_sum = 54500, g_mean = Some (68125 / 10)\<rparr>,
      \<lparr>g_key = StrCell transfer, g_count = 6, g_sum = - 16000, g_mean = Some (- 266667 / 100)\<rparr>]"
  by (rule type_summary_clean_df)

text \<open>
  C21. The mean of a group is missing when the group has no amount and is otherwise the
  quotient of its sum and its count rounded to two decimals; counts and sums are whole
  numbers, which the rounding leaves as they are.
\<close>

theorem type_summary_mean:
  "map g_mean (type_summary f) =
     map (\<lambda>g. if g_count g = 0 then None
               else Some (round2 (of_int (g_sum g) / of_nat (g_count g)))) (type_summary f) \<and>
   map g_count (type_summary f) = map g_count (groupby_agg TransactionType f) \<and>
   map g_sum (type_summary f) = map g_sum (groupby_agg TransactionType f)"
  by (simp add: type_summary_def round_summary_def groupby_agg_def agg_def mean_def comp_def)

text \<open>
  C7. Rounding to two decimals returns a whole number of cents, and it returns the
  number \<open>n\<close> of cents exactly when \<open>n\<close> cents lie less than half a cent from the value,
  or lie exactly half a cent from it and \<open>n\<close> is even: the nearest cent, and of two
  nearest ones the even one.
\<close>

theorem round2_half_even:
  "(round2 x = of_int n / 100) =
     (\<bar>of_int n / 100 - x\<bar> < 1 / 200 \<or> \<bar>of_int n / 100 - x\<bar> = 1 / 200 \<and> even n) \<and>
   (\<exists>m. round2 x = of_int m / 100)"
  using round2_iff [of x n] by (auto simp: round2_def)

theorem round2_half_even_witness:
  "round2 (1 / 8) = 12 / 100 \<and> round2 (3 / 8) = 38 / 100 \<and>
   round2 (- 7700 / 6) = - 128333 / 100 \<and> round2 (1 / 8) \<noteq> 13 / 100"
  using round2_half_even [of "1 / 8" 12] round2_half_even [of "3 / 8" 38]
    round2_half_even [of "- 7700 / 6" "- 128333"] round2_half_even [of "1 / 8" 13]
  by simp

text \<open>
  C6. The value counts of a column list every key once with the number of rows that
  carry it, in descending order of the counts, keys of equal count in the order in
  which the keys are listed; for a well-formed frame the counts add up to the number
  of cells present in the column.
\<close>

theorem value_counts_sorted:
  assumes "wf_frame f"
  shows "sorted (rev (map snd (value_counts c f))) \<and>
         mset (map fst (value_counts c f)) = mset (count_keys c f) \<and>
         map snd (value_counts c f) = map (\<lambda>k. key_count c k f) (map fst (value_counts c f)) \<and>
         map fst (filter (\<lambda>p. snd p = n) (value_counts c f)) =
           filter (\<lambda>k. key_count c k f = n) (count_keys c f) \<and>
         sum_list (map snd (value_counts c f)) = non_null_count c f"
proof (intro conjI)
  show "sorted (rev (map snd (value_counts c f)))"
    unfolding value_counts_def by (rule sorted_sort_desc)
  show "mset (map fst (value_counts c f)) = mset (count_keys c f)"
    by (rule map_fst_value_counts)
  show "map snd (value_counts c f) = map (\<lambda>k. key_count c k f) (map fst (value_counts c f))"
    by (auto simp: value_counts_def)
  show "map fst (filter (\<lambda>p. snd p = n) (value_counts c f)) =
      filter (\<lambda>k. key_count c k f = n) (count_keys c f)"
    by (simp add: value_counts_def sort_desc_stable filter_map comp_def)
  show "sum_list (map snd (value_counts c f)) = non_null_count c f"
    using assms by (rule value_counts_total)
qed

theorem value_counts_sorted_witness:
  "wf_frame df \<and> value_counts Status df = [(StrCell success, 19), (StrCell failure, 1)] \<and>
   non_null_count Status df = 20"
  using value_counts_sorted [OF wf_df, of Status 1] wf_df
  by (simp add: value_counts_status_df)

text \<open>
  C22. On the cleaned table of the program every channel has five transactions, so the
  order of the channel counts is the order of the categories: ATM, mobile banking,
  counter, online banking.
\<close>

theorem channel_count_df:
  "channel_count (clean df) =
     [(StrCell atm, 5), (StrCell mobile_banking, 5), (StrCell counter, 5),
      (StrCell online_banking, 5)] \<and>
   channel_count (clean df) = map (\<lambda>k. (k, 5)) (categories Channel df)"
  by (simp add: channel_count_clean_df categories_channel_df)

text \<open>
  C9. The failure filter keeps exactly the rows whose status is the failure label, in
  their order and under their index labels, changes no dtype and keeps a well-formed
  frame well formed.
\<close>

theorem failed_rows:
  "((i, r) \<in> set (rows (failed_transactions f))) =
     ((i, r) \<in> set (rows f) \<and> status r = Some failure) \<and>
   subseq (rows (failed_transactions f)) (rows f) \<and>
   dtypes (failed_transactions f) = dtypes f \<and>
   (wf_frame f \<longrightarrow> wf_frame (failed_transactions f))"
  by (simp add: wf_failed_transactions)
    (simp add: failed_transactions_def subseq_select_rows is_failed_def)

theorem failed_rows_witness:
  "wf_frame df \<and> wf_frame (failed_transactions df) \<and> length (rows (failed_transactions df)) = 1"
  using failed_rows [of 4 "snd (rows df ! 4)" df] wf_df
  by (simp add: rows_failed_df)

text \<open>
  C23. On the table of the program the failure filter returns one row: index label 4,
  transaction 1005 of customer C1004, a withdrawal of -500 at an ATM.
\<close>

theorem failed_df:
  "rows (failed_transactions df) =
     [(4, \<lparr>transaction_id = Some 1005, customer_id = Some (ascii ''C1004''),
        transaction_type = Some withdrawal, amount = Some (- 500), channel = Some atm,
        status = Some failure\<rparr>)] \<and>
   rows (failed_transactions (clean df)) = rows (failed_transactions df)"
  by (simp add: rows_failed_transactions [of "clean df"])
    (simp add: rows_failed_df flip: rows_failed_transactions)

text \<open>
  C8. For a column with at least one value the description is ordered: minimum, lower
  quartile, median, upper quartile and maximum ascend, the mean lies between minimum
  and maximum, and the count is the number of values.
\<close>

theorem describe_ordered:
  assumes "xs \<noteq> []"
  shows "\<exists>lo q1 q2 q3 hi m.
     d_min (describe xs) = Some lo \<and> d_q25 (describe xs) = Some q1 \<and>
     d_q50 (describe xs) = Some q2 \<and> d_q75 (describe xs) = Some q3 \<and>
     d_max (describe xs) = Some hi \<and> d_mean (describe xs) = Some m \<and>
     lo \<le> q1 \<and> q1 \<le> q2 \<and> q2 \<le> q3 \<and> q3 \<le> hi \<and> lo \<le> m \<and> m \<le> hi \<and>
     d_count (describe xs) = length xs"
proof -
  have q: "quantile q xs = Some (interp (sort xs) (q * of_nat (length xs - 1)))" for q
    using assms by (rule quantile_Some)
  have m: "mean xs = Some (of_int (sum_list xs) / of_nat (length xs))"
    using assms by (simp add: mean_def)
  show ?thesis
    using quantile_bounds(1) [OF q, of "1 / 4"] quantile_bounds(2) [OF q, of "3 / 4"]
      quantile_mono [OF _ _ q q, of "1 / 4" "1 / 2"] quantile_mono [OF _ _ q q, of "1 / 2" "3 / 4"]
      mean_bounds [OF m] assms
    by (simp add: describe_def q m amin_eq amax_eq)
qed

theorem describe_ordered_witness:
  "[3, 1, 2] \<noteq> ([] :: int list) \<and> d_q25 (describe [3, 1, 2]) = Some (3 / 2) \<and>
   d_q50 (describe [3, 1, 2]) = Some 2 \<and> d_q75 (describe [3, 1, 2]) = Some (5 / 2) \<and>
   d_mean (describe [3, 1, 2]) = Some 2"
  using describe_ordered [of "[3, 1, 2]"]
  by (simp add: describe_def quantile_def mean_def interp_eval [of 0 "1 / 2"]
      interp_eval [of 1 1] interp_eval [of 1 "3 / 2"])

text \<open>
  C24. The description of the amounts of the table of the program: 20 values, mean 1540,
  minimum -4000, quartiles -2050, -900 and 5250, maximum 12000, and a standard
  deviation, between 4817 and 4818, that is the square root of 440988000 / 19.
\<close>

theorem describe_df:
  "describe_amount df =
     \<lparr>d_count = 20, d_mean = Some 1540, d_std = Some (sqrt (440988000 / 19)),
      d_min = Some (- 4000), d_q25 = Some (- 2050), d_q50 = Some (- 900),
      d_q75 = Some 5250, d_max = Some 12000\<rparr> \<and>
   4817 < sqrt (440988000 / 19) \<and> sqrt (440988000 / 19) < 4818 \<and>
   describe_amount (clean df) = describe_amount df"
proof (intro conjI)
  show "describe_amount df =
     \<lparr>d_count = 20, d_mean = Some 1540, d_std = Some (sqrt (440988000 / 19)),
      d_min = Some (- 4000), d_q25 = Some (- 2050), d_q50 = Some (- 900),
      d_q75 = Some 5250, d_max = Some 12000\<rparr>"
    by (simp add: describe_amount_def describe_def length_amounts_df mean_df std_def
        variance_df extremes_df quantiles_df of_rat_divide)
  show "4817 < sqrt (440988000 / 19)"
    by (rule real_less_rsqrt) simp
  show "sqrt (440988000 / 19) < 4818"
    by (rule real_less_lsqrt) simp_all
  show "describe_amount (clean df) = describe_amount df"
    by (simp add: describe_amount_def amounts_present_def)
qed

text \<open>
  C25. The description of no value at all has count 0 and every other entry missing;
  the description of one value has that value as mean, minimum, quartiles and
  maximum and no standard deviation.
\<close>

theorem describe_degenerate:
  "describe [] =
     \<lparr>d_count = 0, d_mean = None, d_std = None, d_min = None, d_q25 = None, d_q50 = None,
      d_q75 = None, d_max = None\<rparr> \<and>
   describe [x] =
     \<lparr>d_count = 1, d_mean = Some (of_int x), d_std = None, d_min = Some (of_int x),
      d_q25 = Some (of_int x), d_q50 = Some (of_int x), d_q75 = Some (of_int x),
      d_max = Some (of_int x)\<rparr>"
  by (simp add: describe_def mean_def std_def variance_def amin_def amax_def quantile_def
      interp_def)

text \<open>
  C26. The sample variance exists exactly for two values or more and is never negative;
  the standard deviation is its non-negative square root.
\<close>

theorem std_variance:
  "(variance xs = None) = (length xs < 2) \<and> (std xs = None) = (length xs < 2) \<and>
   (\<forall>v. variance xs = Some v \<longrightarrow> 0 \<le> v \<and> std xs = Some (sqrt (of_rat v))) \<and>
   (\<forall>sd. std xs = Some sd \<longrightarrow> 0 \<le> sd \<and> variance xs = Some 0 = (sd = 0))"
  using variance_None_iff [of xs]
  by (auto simp: std_def dest: variance_nonneg)

theorem std_variance_witness:
  "variance [1, 3] = Some 2 \<and> std [1, 3] = Some (sqrt 2) \<and> variance [5] = None"
  using std_variance [of "[1, 3]"] std_variance [of "[5]"]
  by (simp add: variance_def mean_def power2_eq_square)

section \<open>Sums within the range of the machine\<close>

lemma abs_sum_list_le:
  fixes xs :: "int list"
  assumes "\<And>x. x \<in> set xs \<Longrightarrow> \<bar>x\<bar> \<le> B"
  shows "\<bar>sum_list xs\<bar> \<le> B * int (length xs)"
  using sum_list_lower [of xs "- B"] sum_list_upper [of xs B] assms
  by (simp add: abs_le_iff) (metis abs_le_D1 abs_le_D2 minus_le_iff)

lemma group_amounts_subset: "set (group_amounts c k f) \<subseteq> set (amounts_present f)"
  by (auto simp: group_amounts_def amounts_present_def set_map_filter)

lemma length_group_amounts: "length (group_amounts c k f) \<le> length (rows f)"
proof -
  have "length (group_amounts c k f) \<le> length (filter (\<lambda>r. cell_of c r = Some k) (records f))"
    unfolding group_amounts_def length_map_filter by (rule count_where_le)
  also have "\<dots> \<le> length (records f)"
    by (rule length_filter_le)
  finally show ?thesis
    by (simp add: records_def)
qed

lemma group_sum_bound:
  assumes "0 \<le> B" and "\<And>a. a \<in> set (amounts_present f) \<Longrightarrow> \<bar>a\<bar> \<le> B"
  shows "\<bar>sum_list (group_amounts c k f)\<bar> \<le> B * int (length (rows f))"
proof -
  have "\<bar>sum_list (group_amounts c k f)\<bar> \<le> B * int (length (group_amounts c k f))"
    using assms(2) group_amounts_subset [of c k f] by (intro abs_sum_list_le) blast
  also have "\<dots> \<le> B * int (length (rows f))"
    using assms(1) length_group_amounts [of c k f] by (intro mult_left_mono) simp_all
  finally show ?thesis .
qed

text \<open>
  C27. If no amount of the table exceeds a bound in absolute value, then no sum of a
  group exceeds the bound times the number of rows, and no count the number of rows:
  with bound times rows below \<open>2\<^sup>6\<^sup>3\<close> the sums that the library computes in 64 bits
  are the sums of the model.
\<close>

theorem group_sum_bounds:
  assumes "0 \<le> B" and "\<forall>a\<in>set (amounts_present f). \<bar>a\<bar> \<le> B"
  shows "\<forall>g\<in>set (type_summary f).
           \<bar>g_sum g\<bar> \<le> B * int (length (rows f)) \<and> g_count g \<le> length (rows f)"
  using group_sum_bound [OF assms(1), of f] assms(2) length_group_amounts [of TransactionType _ f]
  by (auto simp: type_summary_def round_summary_def groupby_agg_def agg_def)

theorem group_sum_bounds_witness:
  "(0::int) \<le> 12000 \<and> list_all (\<lambda>a. \<bar>a\<bar> \<le> 12000) (amounts_present (clean df)) \<and>
   list_all (\<lambda>g. \<bar>g_sum g\<bar> \<le> 12000 * 20 \<and> g_count g \<le> 20) (type_summary (clean df)) \<and>
   (12000 * 20 :: int) < 2 ^ 63"
  using group_sum_bounds [of 12000 "clean df"]
  by (simp add: amounts_present_def type_summary_clean_df)
    (simp add: amounts_present_df [unfolded amounts_present_def])

section \<open>Value counts as counting in a multiset\<close>

lemma key_count_eq_count: "key_count c k f = count (mset (present c f)) k"
proof -
  have "present c f = List.map_filter (cell_of c) (records f)"
    by (simp add: present_def column_cells_def map_filter_def comp_def filter_map)
  then show ?thesis
    by (simp add: key_count_def count_mset_map_filter)
qed

lemma map_of_value_counts:
  "map_of (value_counts c f) k =
     (if k \<in> set (count_keys c f) then Some (key_count c k f) else None)"
proof (cases "map_of (value_counts c f) k")
  case None
  then have "k \<notin> fst ` set (value_counts c f)"
    by (simp add: map_of_eq_None_iff)
  then have "k \<notin> set (count_keys c f)"
    using value_counts_lookup [of k "key_count c k f" c f] by force
  with None show ?thesis by simp
next
  case (Some n)
  then have "(k, n) \<in> set (value_counts c f)"
    by (rule map_of_SomeD)
  with Some show ?thesis
    by (simp add: value_counts_lookup)
qed

text \<open>
  C14. The value counts implement counting in the multiset of the values present in the
  column: looked up by key, they give for every listed key the number of times the
  value occurs in the column (zero for a category that no row carries) and nothing for
  any other value.
\<close>

theorem value_counts_count:
  "map_of (value_counts c f) k =
     (if k \<in> set (count_keys c f) then Some (count (mset (present c f)) k) else None) \<and>
   key_count c k f = count (mset (present c f)) k"
  by (simp add: map_of_value_counts key_count_eq_count)

end
