(* ===== verification/Bank_Visualizer.thy ===== *)
theory Bank_Visualizer
  imports Bank_Analyzer
begin

text \<open>
  The visualizer (step 4, lines 85 to 105 of \<^verbatim>\<open>src/bank_analysis.py\<close>): a figure of two
  axes side by side, a bar chart of the sums per transaction type on the left and one of
  the counts per channel on the right, saved as an image. A figure is modelled by what
  the calls put into it (bars with tick label, height and colour, titles, axis labels,
  the rotation of the tick labels), an image by its size in pixels and the figure it
  shows; how the bars are painted is outside the model. The statements of lines 90 to
  101 are a list of commands run in order, each addressing one of the axes by its
  position; a position outside the figure is an \<^verbatim>\<open>IndexError\<close>.
\<close>

section \<open>Figures\<close>

text \<open>The \<^verbatim>\<open>color\<close> argument of a plot: one colour name or a list of them.\<close>

datatype colours = One pystr | Many "pystr list"

record bar =
  tick :: pystr
  height :: int
  colour :: "pystr option"

record axes =
  bars :: "bar list"
  title :: pystr
  ylabel :: pystr
  rotation :: nat

record figure =
  figsize :: "nat \<times> nat"
  fig_axes :: "axes list"
  tight :: bool

type_synonym series = "(cell \<times> int) list"

definition new_axes :: axes where
  "new_axes = \<lparr>bars = [], title = [], ylabel = [], rotation = 0\<rparr>"

text \<open>\<^verbatim>\<open>plt.subplots(1, n, figsize=size)\<close>: one row of \<open>n\<close> empty axes.\<close>

definition subplots :: "nat \<Rightarrow> nat \<times> nat \<Rightarrow> figure" where
  "subplots n sz = \<lparr>figsize = sz, fig_axes = replicate n new_axes, tight = False\<rparr>"

section \<open>Bar charts\<close>

fun cell_label :: "cell \<Rightarrow> pystr" where
  "cell_label (StrCell s) = s"
| "cell_label (IntCell i) = str_int i"

text \<open>
  The colour of the bar at a position: the one colour, or the colours of the list taken
  in turn and again from the start when the list is used up. An empty list paints no
  bar.
\<close>

fun bar_colour :: "colours \<Rightarrow> nat \<Rightarrow> pystr option" where
  "bar_colour (One c) i = Some c"
| "bar_colour (Many cs) i = (if cs = [] then None else Some (cs ! (i mod length cs)))"

definition make_bars :: "colours \<Rightarrow> series \<Rightarrow> bar list" where
  "make_bars col kvs =
     map (\<lambda>(i, (k, v)). \<lparr>tick = cell_label k, height = v, colour = bar_colour col i\<rparr>)
       (enumerate 0 kvs)"

text \<open>
  \<^verbatim>\<open>series.plot(kind='bar', ax=a, color=col)\<close> adds one bar per entry of the series, in
  the order of the series, and turns the tick labels upright (90 degrees), which is the
  library's choice for bar charts.
\<close>

definition plot_bar :: "series \<Rightarrow> colours \<Rightarrow> axes \<Rightarrow> axes" where
  "plot_bar kvs col a = a\<lparr>bars := bars a @ make_bars col kvs, rotation := 90\<rparr>"

definition set_title :: "pystr \<Rightarrow> axes \<Rightarrow> axes" where
  "set_title t a = a\<lparr>title := t\<rparr>"

definition set_ylabel :: "pystr \<Rightarrow> axes \<Rightarrow> axes" where
  "set_ylabel t a = a\<lparr>ylabel := t\<rparr>"

definition tick_params :: "nat \<Rightarrow> axes \<Rightarrow> axes" where
  "tick_params r a = a\<lparr>rotation := r\<rparr>"

definition tight_layout :: "figure \<Rightarrow> figure" where
  "tight_layout g = g\<lparr>tight := True\<rparr>"

text \<open>\<^verbatim>\<open>axes[i].method(...)\<close>: the method applied to the axes at position \<open>i\<close>.\<close>

definition on_axes :: "nat \<Rightarrow> (axes \<Rightarrow> axes) \<Rightarrow> figure \<Rightarrow> figure result" where
  "on_axes i m g =
     (if i < length (fig_axes g) then Inr (g\<lparr>fig_axes := (fig_axes g)[i := m (fig_axes g ! i)]\<rparr>)
      else Inl IndexError)"

section \<open>Plotting commands\<close>

datatype command =
    PlotBar nat series colours
  | SetTitle nat pystr
  | SetYLabel nat pystr
  | TickParams nat nat
  | TightLayout

fun exec_command :: "command \<Rightarrow> figure \<Rightarrow> figure result" where
  "exec_command (PlotBar i kvs col) g = on_axes i (plot_bar kvs col) g"
| "exec_command (SetTitle i t) g = on_axes i (set_title t) g"
| "exec_command (SetYLabel i t) g = on_axes i (set_ylabel t) g"
| "exec_command (TickParams i r) g = on_axes i (tick_params r) g"
| "exec_command TightLayout g = Inr (tight_layout g)"

text \<open>Commands run in order; the first error ends the run.\<close>

fun exec :: "command list \<Rightarrow> figure \<Rightarrow> figure result" where
  "exec [] g = Inr g"
| "exec (c # cs) g = (case exec_command c g of Inl e \<Rightarrow> Inl e | Inr g' \<Rightarrow> exec cs g')"

section \<open>The two charts of the program\<close>

definition green :: pystr where "green = ascii ''green''"
definition red :: pystr where "red = ascii ''red''"
definition orange :: pystr where "orange = ascii ''orange''"
definition skyblue :: pystr where "skyblue = ascii ''skyblue''"

definition title_left :: pystr where
  "title_left = [21508, 20132, 26131, 31867, 22411, 24635, 37329, 39069, 23545, 27604]"

definition ylabel_left :: pystr where
  "ylabel_left = [24635, 37329, 39069, 65288, 20803, 65289]"

definition title_right :: pystr where
  "title_right = [21508, 20132, 26131, 28192, 36947, 31508, 25968, 23545, 27604]"

definition ylabel_right :: pystr where
  "ylabel_right = [20132, 26131, 31508, 25968]"

lemmas chart_defs =
  green_def red_def orange_def skyblue_def title_left_def ylabel_left_def title_right_def
  ylabel_right_def

text \<open>\<^verbatim>\<open>type_summary['sum']\<close> and the channel counts as series of heights.\<close>

definition sum_series :: "summary list \<Rightarrow> series" where
  "sum_series ts = map (\<lambda>g. (g_key g, g_sum g)) ts"

definition count_series :: "(cell \<times> nat) list \<Rightarrow> series" where
  "count_series cc = map (\<lambda>(k, n). (k, int n)) cc"

definition chart_commands :: "summary list \<Rightarrow> (cell \<times> nat) list \<Rightarrow> command list" where
  "chart_commands ts cc =
     [PlotBar 0 (sum_series ts) (Many [green, red, orange]),
      SetTitle 0 title_left, SetYLabel 0 ylabel_left, TickParams 0 0,
      PlotBar 1 (count_series cc) (One skyblue),
      SetTitle 1 title_right, SetYLabel 1 ylabel_right, TickParams 1 0,
      TightLayout]"

definition visualize :: "summary list \<Rightarrow> (cell \<times> nat) list \<Rightarrow> figure result" where
  "visualize ts cc = exec (chart_commands ts cc) (subplots 2 (12, 5))"

section \<open>Saving the figure\<close>

record image =
  width :: nat
  height_px :: nat
  dpi :: nat
  shows_figure :: figure

type_synonym files = "pystr \<rightharpoonup> image"

definition file_name :: pystr where
  "file_name = ascii ''bank_transaction_analysis.png''"

text \<open>The figure at a resolution: its size in inches times the dots per inch.\<close>

definition render :: "nat \<Rightarrow> figure \<Rightarrow> image" where
  "render d g =
     \<lparr>width = fst (figsize g) * d, height_px = snd (figsize g) * d, dpi = d, shows_figure = g\<rparr>"

definition savefig :: "pystr \<Rightarrow> nat \<Rightarrow> figure \<Rightarrow> files \<Rightarrow> files" where
  "savefig name d g fs = fs(name \<mapsto> render d g)"

section \<open>Bars\<close>

lemma length_make_bars [simp]: "length (make_bars col kvs) = length kvs"
  by (simp add: make_bars_def)

lemma nth_make_bars:
  "i < length kvs \<Longrightarrow>
   make_bars col kvs ! i =
     \<lparr>tick = cell_label (fst (kvs ! i)), height = snd (kvs ! i), colour = bar_colour col i\<rparr>"
  by (simp add: make_bars_def nth_enumerate_eq split: prod.split)

lemma map_tick_make_bars: "map tick (make_bars col kvs) = map (cell_label \<circ> fst) kvs"
  by (intro nth_equalityI) (simp_all add: nth_make_bars)

lemma map_height_make_bars: "map height (make_bars col kvs) = map snd kvs"
  by (intro nth_equalityI) (simp_all add: nth_make_bars)

lemma make_bars_Nil [simp]: "make_bars col [] = []"
  by (simp add: make_bars_def)

lemma bar_colour_cycle:
  "cs \<noteq> [] \<Longrightarrow> bar_colour (Many cs) (i + length cs) = bar_colour (Many cs) i"
  by simp

lemma bar_colour_in: "bar_colour (Many cs) i = Some c \<Longrightarrow> c \<in> set cs"
  by (auto split: if_splits)

lemma cell_label_inj: "cell_label (StrCell s) = cell_label (StrCell t) \<longleftrightarrow> s = t"
  by simp

section \<open>Commands on a figure\<close>

lemma on_axes_Inr_iff:
  "on_axes i m g = Inr g' \<longleftrightarrow>
     i < length (fig_axes g) \<and> g' = g\<lparr>fig_axes := (fig_axes g)[i := m (fig_axes g ! i)]\<rparr>"
  by (auto simp: on_axes_def)

lemma on_axes_Inl_iff: "on_axes i m g = Inl e \<longleftrightarrow> length (fig_axes g) \<le> i \<and> e = IndexError"
  by (auto simp: on_axes_def)

text \<open>The positions a command addresses.\<close>

fun position :: "command \<Rightarrow> nat option" where
  "position (PlotBar i kvs col) = Some i"
| "position (SetTitle i t) = Some i"
| "position (SetYLabel i t) = Some i"
| "position (TickParams i r) = Some i"
| "position TightLayout = None"

definition in_range :: "nat \<Rightarrow> command \<Rightarrow> bool" where
  "in_range n c = (case position c of None \<Rightarrow> True | Some i \<Rightarrow> i < n)"

lemma exec_command_Inr:
  "in_range (length (fig_axes g)) c \<Longrightarrow>
   \<exists>g'. exec_command c g = Inr g' \<and> length (fig_axes g') = length (fig_axes g) \<and>
        figsize g' = figsize g"
  by (cases c) (simp_all add: in_range_def on_axes_def tight_layout_def)

lemma exec_command_Inl:
  "\<not> in_range (length (fig_axes g)) c \<Longrightarrow> exec_command c g = Inl IndexError"
  by (cases c) (simp_all add: in_range_def on_axes_def)

lemma exec_Inr:
  "list_all (in_range (length (fig_axes g))) cs \<Longrightarrow>
   \<exists>g'. exec cs g = Inr g' \<and> length (fig_axes g') = length (fig_axes g) \<and>
        figsize g' = figsize g"
proof (induction cs arbitrary: g)
  case Nil
  then show ?case by simp
next
  case (Cons c cs)
  from Cons.prems obtain g1 where g1: "exec_command c g = Inr g1"
      "length (fig_axes g1) = length (fig_axes g)" "figsize g1 = figsize g"
    using exec_command_Inr [of g c] by auto
  with Cons.IH [of g1] Cons.prems show ?case by auto
qed

lemma exec_Inl:
  "\<not> list_all (in_range (length (fig_axes g))) cs \<Longrightarrow> exec cs g = Inl IndexError"
proof (induction cs arbitrary: g)
  case Nil
  then show ?case by simp
next
  case (Cons c cs)
  show ?case
  proof (cases "in_range (length (fig_axes g)) c")
    case True
    then obtain g1 where g1: "exec_command c g = Inr g1"
        "length (fig_axes g1) = length (fig_axes g)"
      using exec_command_Inr [of g c] by auto
    with Cons.IH [of g1] Cons.prems True show ?thesis by simp
  next
    case False
    then show ?thesis by (simp add: exec_command_Inl)
  qed
qed

lemma exec_append:
  "exec (cs @ ds) g = (case exec cs g of Inl e \<Rightarrow> Inl e | Inr g' \<Rightarrow> exec ds g')"
  by (induction cs arbitrary: g) (auto split: sum.splits)

section \<open>The figure of the program\<close>

definition left_axes :: "summary list \<Rightarrow> axes" where
  "left_axes ts =
     \<lparr>bars = make_bars (Many [green, red, orange]) (sum_series ts), title = title_left,
      ylabel = ylabel_left, rotation = 0\<rparr>"

definition right_axes :: "(cell \<times> nat) list \<Rightarrow> axes" where
  "right_axes cc =
     \<lparr>bars = make_bars (One skyblue) (count_series cc), title = title_right,
      ylabel = ylabel_right, rotation = 0\<rparr>"

lemma visualize_eq:
  "visualize ts cc =
     Inr \<lparr>figsize = (12, 5), fig_axes = [left_axes ts, right_axes cc], tight = True\<rparr>"
  by (simp add: visualize_def chart_commands_def subplots_def on_axes_def new_axes_def
      plot_bar_def set_title_def set_ylabel_def tick_params_def tight_layout_def left_axes_def
      right_axes_def numeral_2_eq_2)

lemma sum_series_clean_df:
  "sum_series (type_summary (clean df)) =
     [(StrCell withdrawal, - 7700), (StrCell deposit, 54500), (StrCell transfer, - 16000)]"
  by (simp add: sum_series_def type_summary_clean_df)

lemma count_series_clean_df:
  "count_series (channel_count (clean df)) =
     [(StrCell atm, 5), (StrCell mobile_banking, 5), (StrCell counter, 5),
      (StrCell online_banking, 5)]"
  by (simp add: count_series_def channel_count_clean_df)

lemma savefig_same [simp]: "savefig name d g fs name = Some (render d g)"
  by (simp add: savefig_def)

lemma savefig_other [simp]: "name' \<noteq> name \<Longrightarrow> savefig name d g fs name' = fs name'"
  by (simp add: savefig_def)

section \<open>What the visualizer guarantees\<close>

text \<open>
  C28. Whatever the summary and the channel counts are, the plotting statements raise no
  error and leave a figure of 12 by 5 inches with two axes: on the left one bar per
  group with its sum, coloured green, red, orange in turn, on the right one sky-blue
  bar per channel with its count, both with their title and axis label and with level
  tick labels, the layout tightened.
\<close>

theorem visualize_figure:
  "visualize ts cc =
     Inr \<lparr>figsize = (12, 5),
          fig_axes =
            [\<lparr>bars = make_bars (Many [green, red, orange]) (map (\<lambda>g. (g_key g, g_sum g)) ts),
              title = title_left, ylabel = ylabel_left, rotation = 0\<rparr>,
             \<lparr>bars = make_bars (One skyblue) (map (\<lambda>(k, n). (k, int n)) cc),
              title = title_right, ylabel = ylabel_right, rotation = 0\<rparr>],
          tight = True\<rparr>"
  by (simp add: visualize_eq left_axes_def right_axes_def sum_series_def count_series_def)

text \<open>
  C29. On the cleaned table of the program the left chart shows withdrawals -7700 in
  green, deposits 54500 in red and transfers -16000 in orange, and the right chart
  four bars of height 5 for ATM, mobile banking, counter and online banking.
\<close>

theorem charts_df:
  "visualize (type_summary (clean df)) (channel_count (clean df)) =
     Inr \<lparr>figsize = (12, 5),
          fig_axes =
            [\<lparr>bars = [\<lparr>tick = withdrawal, height = - 7700, colour = Some green\<rparr>,
                      \<lparr>tick = deposit, height = 54500, colour = Some red\<rparr>,
                      \<lparr>tick = transfer, height = - 16000, colour = Some orange\<rparr>],
              title = title_left, ylabel = ylabel_left, rotation = 0\<rparr>,
             \<lparr>bars = [\<lparr>tick = atm, height = 5, colour = Some skyblue\<rparr>,
                      \<lparr>tick = mobile_banking, height = 5, colour = Some skyblue\<rparr>,
                      \<lparr>tick = counter, height = 5, colour = Some skyblue\<rparr>,
                      \<lparr>tick = online_banking, height = 5, colour = Some skyblue\<rparr>],
              title = title_right, ylabel = ylabel_right, rotation = 0\<rparr>],
          tight = True\<rparr>"
  by (simp add: visualize_eq left_axes_def right_axes_def sum_series_clean_df
      count_series_clean_df make_bars_def enumerate_eq_zip)

text \<open>
  C30. The bar at a position of a chart carries the label of the key at that position of
  the series, its value as height, and the colour at that position of the colour list
  counted round.
\<close>

theorem make_bars_nth:
  assumes "i < length kvs"
  shows "length (make_bars col kvs) = length kvs \<and>
         tick (make_bars col kvs ! i) = cell_label (fst (kvs ! i)) \<and>
         height (make_bars col kvs ! i) = snd (kvs ! i) \<and>
         colour (make_bars col kvs ! i) =
           (case col of One c \<Rightarrow> Some c
            | Many cs \<Rightarrow> if cs = [] then None else Some (cs ! (i mod length cs)))"
  using assms by (cases col) (simp_all add: nth_make_bars)

theorem make_bars_nth_witness:
  "(3::nat) < length [(IntCell 7, 1), (IntCell 8, 2), (IntCell 9, 3), (StrCell atm, 4 :: int)] \<and>
   make_bars (Many [green, red, orange])
       [(IntCell 7, 1), (IntCell 8, 2), (IntCell 9, 3), (StrCell atm, 4)] ! 3 =
     \<lparr>tick = atm, height = 4, colour = Some green\<rparr>"
  using make_bars_nth [of 3 "[(IntCell 7, 1), (IntCell 8, 2), (IntCell 9, 3), (StrCell atm, 4)]"
      "Many [green, red, orange]"]
  by (simp add: make_bars_def enumerate_eq_zip)

text \<open>
  C31. A list of plotting commands runs to the end exactly when each command addresses
  axes of the figure, and then keeps the number of axes and the size of the figure; it
  stops with \<^verbatim>\<open>IndexError\<close> exactly when some command addresses a position beyond the
  axes.
\<close>

theorem exec_IndexError:
  "(\<exists>g'. exec cs g = Inr g' \<and> length (fig_axes g') = length (fig_axes g) \<and>
         figsize g' = figsize g) =
     list_all (in_range (length (fig_axes g))) cs \<and>
   (exec cs g = Inl IndexError) = (\<not> list_all (in_range (length (fig_axes g))) cs) \<and>
   exec [SetTitle 2 t] (subplots 2 sz) = Inl IndexError"
proof (intro conjI)
  show "exec [SetTitle 2 t] (subplots 2 sz) = Inl IndexError"
    by (simp add: on_axes_def subplots_def)
  show "(exec cs g = Inl IndexError) = (\<not> list_all (in_range (length (fig_axes g))) cs)"
    using exec_Inr [of g cs] exec_Inl [of g cs] by (cases "list_all (in_range (length (fig_axes g))) cs") auto
  then show "(\<exists>g'. exec cs g = Inr g' \<and> length (fig_axes g') = length (fig_axes g) \<and>
         figsize g' = figsize g) =
     list_all (in_range (length (fig_axes g))) cs"
    using exec_Inr [of g cs] by (cases "list_all (in_range (length (fig_axes g))) cs") auto
qed

end
