(* ===== verification/Bank_Pipeline.thy ===== *)
theory Bank_Pipeline
  imports Bank_Visualizer
begin

text \<open>
  The script as a whole: the four steps of \<^verbatim>\<open>src/bank_analysis.py\<close> run one after the
  other on the variables of the program, the console and the disk. A configuration is
  the program point together with the variables bound there, and the outside world;
  \<open>next_config\<close> runs one step, \<open>run\<close> runs steps until none is left, \<open>step\<close> is the
  same machine as a relation. The dictionary of step 1 is a parameter, so that the
  failure of the constructor is a run of the model as well; \<open>main\<close> is the run on the
  dictionary of the program.
\<close>

section \<open>What the program prints\<close>

datatype item =
    Line pystr
  | Table frame
  | Info "(column \<times> nat \<times> dtype) list"
  | NoneValue
  | Counts "(column \<times> nat) list"
  | Dtypes "(column \<times> dtype) list"
  | Description description
  | Summary "summary list"
  | ValueCounts "(cell \<times> nat) list"

definition msg_step1 :: pystr where
  "msg_step1 = [61, 61, 61, 32, 31532, 49, 27493, 65306, 29983, 25104, 27169, 25311, 38134,
     34892, 20132, 26131, 25968, 25454, 32, 61, 61, 61]"

definition msg_preview :: pystr where
  "msg_preview = [21407, 22987, 25968, 25454, 39044, 35272, 65306]"

definition msg_info :: pystr where
  "msg_info = [10, 25968, 25454, 22522, 26412, 20449, 24687, 65306]"

definition msg_step2 :: pystr where
  "msg_step2 = [10, 61, 61, 61, 32, 31532, 50, 27493, 65306, 25968, 25454, 28165, 27927, 32,
     61, 61, 61]"

definition msg_missing :: pystr where
  "msg_missing = [26816, 26597, 32570, 22833, 20540, 65306]"

definition msg_outliers :: pystr where
  "msg_outliers = [10, 26816, 26597, 20132, 26131, 37329, 39069, 24322, 24120, 20540, 65288,
     62, 49, 48, 48, 48, 48, 25110, 60, 45, 53, 48, 48, 48, 65289, 65306]"

definition msg_dtypes :: pystr where
  "msg_dtypes = [10, 28165, 27927, 21518, 25968, 25454, 31867, 22411, 65306]"

definition msg_step3 :: pystr where
  "msg_step3 = [10, 61, 61, 61, 32, 31532, 51, 27493, 65306, 22522, 30784, 25968, 25454,
     20998, 26512, 32, 61, 61, 61]"

definition msg_describe :: pystr where
  "msg_describe = [20132, 26131, 37329, 39069, 32479, 35745, 25551, 36848, 65288, 20803,
     65289, 65306]"

definition msg_by_type :: pystr where
  "msg_by_type = [10, 25353, 12304, 20132, 26131, 31867, 22411, 12305, 32479, 35745, 65288,
     31508, 25968, 12289, 24635, 39069, 12289, 24179, 22343, 39069, 65289, 65306]"

definition msg_by_channel :: pystr where
  "msg_by_channel = [10, 25353, 12304, 20132, 26131, 28192, 36947, 12305, 32479, 35745,
     20132, 26131, 31508, 25968, 65306]"

definition msg_failed :: pystr where
  "msg_failed = [10, 22833, 36133, 30340, 20132, 26131, 65306]"

definition msg_step4 :: pystr where
  "msg_step4 = [10, 61, 61, 61, 32, 31532, 52, 27493, 65306, 25968, 25454, 21487, 35270,
     21270, 32, 61, 61, 61]"

definition msg_saved :: pystr where
  "msg_saved = [22270, 34920, 24050, 20445, 23384, 20026, 32, 8216] @ file_name @ [8216]"

definition msg_done :: pystr where
  "msg_done = [10, 61, 61, 61, 32, 39033, 30446, 23436, 25104, 65281, 32, 61, 61, 61]"

definition msg_summary :: pystr where
  "msg_summary = [24050, 25104, 21151, 23436, 25104, 65306, 49, 46, 32, 25968, 25454, 29983,
     25104, 32, 50, 46, 32, 25968, 25454, 28165, 27927, 32, 51, 46, 32, 19994, 21153, 20998,
     26512, 32, 52, 46, 32, 32467, 26524, 21487, 35270, 21270]"

text \<open>What each step prints once its leading banner is out, in the order of the script.\<close>

definition generate_out :: "frame \<Rightarrow> item list" where
  "generate_out f = [Line msg_preview, Table (head f), Line msg_info, Info (info f), NoneValue]"

definition report_item :: "frame printed \<Rightarrow> item" where
  "report_item p = (case p of Text s \<Rightarrow> Line s | Shown a \<Rightarrow> Table a)"

definition clean_out :: "frame \<Rightarrow> item list" where
  "clean_out f =
     [Line msg_step2, Line msg_missing, Counts (isnull_sum f), Line (duplicates_line f),
      Line msg_outliers, report_item (outlier_report f), Line msg_dtypes,
      Dtypes (dtypes (clean f))]"

definition analyze_out :: "frame \<Rightarrow> item list" where
  "analyze_out f =
     [Line msg_step3, Line msg_describe, Description (describe_amount f),
      Line msg_by_type, Summary (type_summary f),
      Line msg_by_channel, ValueCounts (channel_count f),
      Line msg_failed, Table (failed_transactions f)]"

definition finish_out :: "item list" where
  "finish_out = [Line msg_saved, Line msg_done, Line msg_summary]"

section \<open>Configurations\<close>

record world =
  console :: "item list"
  disk :: files

definition emit :: "item list \<Rightarrow> world \<Rightarrow> world" where
  "emit xs w = w\<lparr>console := console w @ xs\<rparr>"

definition save :: "figure \<Rightarrow> world \<Rightarrow> world" where
  "save g w = w\<lparr>disk := savefig file_name 300 g (disk w)\<rparr>"

text \<open>
  The program points between the steps with the variables bound at each: the table
  \<^verbatim>\<open>df\<close>, then also \<^verbatim>\<open>type_summary\<close> and \<^verbatim>\<open>channel_count\<close>, then also the figure.
  \<open>Failed\<close> is the program stopped by an exception.
\<close>

datatype vars =
    Start
  | Generated frame
  | Cleaned frame
  | Analyzed frame "summary list" "(cell \<times> nat) list"
  | Finished frame "summary list" "(cell \<times> nat) list" figure
  | Failed pyerror

type_synonym config = "vars \<times> world"

definition initial :: "files \<Rightarrow> config" where
  "initial fs = (Start, \<lparr>console = [], disk = fs\<rparr>)"

section \<open>The four steps\<close>

definition generate :: "columns \<Rightarrow> world \<Rightarrow> config" where
  "generate d w =
     (case DataFrame d of
        Inl e \<Rightarrow> (Failed e, emit [Line msg_step1] w)
      | Inr f \<Rightarrow> (Generated f, emit (Line msg_step1 # generate_out f) w))"

definition cleaning :: "frame \<Rightarrow> world \<Rightarrow> config" where
  "cleaning f w = (Cleaned (clean f), emit (clean_out f) w)"

definition analyze :: "frame \<Rightarrow> world \<Rightarrow> config" where
  "analyze f w = (Analyzed f (type_summary f) (channel_count f), emit (analyze_out f) w)"

definition visualization ::
  "frame \<Rightarrow> summary list \<Rightarrow> (cell \<times> nat) list \<Rightarrow> world \<Rightarrow> config" where
  "visualization f ts cc w =
     (case visualize ts cc of
        Inl e \<Rightarrow> (Failed e, emit [Line msg_step4] w)
      | Inr g \<Rightarrow> (Finished f ts cc g, emit finish_out (save g (emit [Line msg_step4] w))))"

fun next_config :: "columns \<Rightarrow> config \<Rightarrow> config option" where
  "next_config d (Start, w) = Some (generate d w)"
| "next_config d (Generated f, w) = Some (cleaning f w)"
| "next_config d (Cleaned f, w) = Some (analyze f w)"
| "next_config d (Analyzed f ts cc, w) = Some (visualization f ts cc w)"
| "next_config d (Finished f ts cc g, w) = None"
| "next_config d (Failed e, w) = None"

text \<open>The number of steps a program point has ahead of it at most.\<close>

fun remaining :: "vars \<Rightarrow> nat" where
  "remaining Start = 4"
| "remaining (Generated f) = 3"
| "remaining (Cleaned f) = 2"
| "remaining (Analyzed f ts cc) = 1"
| "remaining (Finished f ts cc g) = 0"
| "remaining (Failed e) = 0"

lemma next_config_remaining:
  "next_config d c = Some c' \<Longrightarrow> remaining (fst c') < remaining (fst c)"
  by (cases "(d, c)" rule: next_config.cases)
    (auto simp: generate_def cleaning_def analyze_def visualization_def split: sum.splits)

function run :: "columns \<Rightarrow> config \<Rightarrow> config" where
  "run d c = (case next_config d c of None \<Rightarrow> c | Some c' \<Rightarrow> run d c')"
  by pat_completeness auto

termination
  by (relation "measure (\<lambda>(d, c). remaining (fst c))") (auto dest: next_config_remaining)

declare run.simps [simp del]

definition main :: config where
  "main = run data (initial Map.empty)"

section \<open>The steps as a relation\<close>

inductive step :: "columns \<Rightarrow> config \<Rightarrow> config \<Rightarrow> bool" for d where
  gen: "step d (Start, w) (generate d w)"
| cln: "step d (Generated f, w) (cleaning f w)"
| ana: "step d (Cleaned f, w) (analyze f w)"
| vis: "step d (Analyzed f ts cc, w) (visualization f ts cc w)"

inductive_cases step_StartE: "step d (Start, w) c"
inductive_cases step_GeneratedE: "step d (Generated f, w) c"
inductive_cases step_CleanedE: "step d (Cleaned f, w) c"
inductive_cases step_AnalyzedE: "step d (Analyzed f ts cc, w) c"
inductive_cases step_FinishedE: "step d (Finished f ts cc g, w) c"
inductive_cases step_FailedE: "step d (Failed e, w) c"

lemmas stepE = step_StartE step_GeneratedE step_CleanedE step_AnalyzedE step_FinishedE
  step_FailedE

inductive reachable :: "columns \<Rightarrow> files \<Rightarrow> config \<Rightarrow> bool" for d fs where
  start: "reachable d fs (initial fs)"
| later: "reachable d fs c \<Longrightarrow> step d c c' \<Longrightarrow> reachable d fs c'"

text \<open>The table bound at a program point.\<close>

fun table_of :: "vars \<Rightarrow> frame option" where
  "table_of Start = None"
| "table_of (Generated f) = Some f"
| "table_of (Cleaned f) = Some f"
| "table_of (Analyzed f ts cc) = Some f"
| "table_of (Finished f ts cc g) = Some f"
| "table_of (Failed e) = None"

definition final :: "config \<Rightarrow> bool" where
  "final c \<longleftrightarrow> remaining (fst c) = 0"

section \<open>Function and relation agree\<close>

lemma step_iff_next: "step d c c' \<longleftrightarrow> next_config d c = Some c'"
  by (cases "(d, c)" rule: next_config.cases) (auto intro: step.intros elim: stepE)

lemma final_iff: "final c \<longleftrightarrow> next_config d c = None"
  by (cases "(d, c)" rule: next_config.cases) (simp_all add: final_def)

lemma run_final [simp]: "final c \<Longrightarrow> run d c = c"
  by (subst run.simps) (simp add: final_iff [of c d])

lemma run_step: "next_config d c = Some c' \<Longrightarrow> run d c = run d c'"
  by (subst run.simps) simp

lemma reachable_run: "reachable d fs c \<Longrightarrow> reachable d fs (run d c)"
proof (induction d c rule: run.induct)
  case (1 d c)
  show ?case
  proof (cases "next_config d c")
    case None
    with 1 show ?thesis by (simp add: final_iff [symmetric])
  next
    case (Some c')
    with 1 show ?thesis
      by (simp add: run_step later step_iff_next)
  qed
qed

section \<open>What every run keeps\<close>

definition table_inv :: "columns \<Rightarrow> config \<Rightarrow> bool" where
  "table_inv d c =
     (case table_of (fst c) of None \<Rightarrow> True
      | Some f \<Rightarrow> wf_frame f \<and> rows f = rows (build_frame d))"

definition disk_inv :: "files \<Rightarrow> config \<Rightarrow> bool" where
  "disk_inv fs c =
     (case fst c of
        Finished f ts cc g \<Rightarrow> disk (snd c) = fs(file_name \<mapsto> render 300 g)
      | _ \<Rightarrow> disk (snd c) = fs)"

lemma disk_emit [simp]: "disk (emit xs w) = disk w"
  by (simp add: emit_def)

lemma console_emit [simp]: "console (emit xs w) = console w @ xs"
  by (simp add: emit_def)

lemma disk_save [simp]: "disk (save g w) = savefig file_name 300 g (disk w)"
  by (simp add: save_def)

lemma console_save [simp]: "console (save g w) = console w"
  by (simp add: save_def)

lemma table_inv_step:
  assumes "step d c c'" and "table_inv d c"
  shows "table_inv d c'"
  using assms
proof cases
  case (gen w)
  then show ?thesis
    by (auto simp: table_inv_def generate_def DataFrame_def wf_build_frame split: sum.splits)
next
  case (cln f w)
  with assms(2) show ?thesis
    by (simp add: table_inv_def cleaning_def wf_clean)
next
  case (ana f w)
  with assms(2) show ?thesis
    by (simp add: table_inv_def analyze_def)
next
  case (vis f ts cc w)
  with assms(2) show ?thesis
    by (simp add: table_inv_def visualization_def split: sum.splits)
qed

lemma disk_inv_step:
  assumes "step d c c'" and "disk_inv fs c"
  shows "disk_inv fs c'"
  using assms
  by cases
    (auto simp: disk_inv_def generate_def cleaning_def analyze_def visualization_def
      savefig_def split: sum.splits)

lemma reachable_inv: "reachable d fs c \<Longrightarrow> table_inv d c \<and> disk_inv fs c"
proof (induction rule: reachable.induct)
  case start
  show ?case by (simp add: table_inv_def disk_inv_def initial_def)
next
  case (later c c')
  then show ?case by (simp add: table_inv_step disk_inv_step)
qed

section \<open>The result of a run\<close>

lemma run_initial:
  "run d (initial fs) =
     (case DataFrame d of
        Inl e \<Rightarrow> (Failed e, \<lparr>console = [Line msg_step1], disk = fs\<rparr>)
      | Inr f \<Rightarrow>
          visualization (clean f) (type_summary (clean f)) (channel_count (clean f))
            (emit (analyze_out (clean f)) (emit (clean_out f)
              (emit (Line msg_step1 # generate_out f) \<lparr>console = [], disk = fs\<rparr>))))"
proof (cases "DataFrame d")
  case (Inl e)
  then have "next_config d (initial fs) = Some (Failed e, \<lparr>console = [Line msg_step1], disk = fs\<rparr>)"
    by (simp add: initial_def generate_def emit_def)
  then show ?thesis
    using Inl by (simp add: run_step final_def)
next
  case (Inr f)
  let ?w0 = "\<lparr>console = [], disk = fs\<rparr>"
  let ?w1 = "emit (Line msg_step1 # generate_out f) ?w0"
  let ?w2 = "emit (clean_out f) ?w1"
  let ?w3 = "emit (analyze_out (clean f)) ?w2"
  let ?c4 = "visualization (clean f) (type_summary (clean f)) (channel_count (clean f)) ?w3"
  have "run d (initial fs) = run d (Generated f, ?w1)"
    using Inr by (intro run_step) (simp add: initial_def generate_def)
  also have "\<dots> = run d (Cleaned (clean f), ?w2)"
    by (intro run_step) (simp add: cleaning_def)
  also have "\<dots> = run d (Analyzed (clean f) (type_summary (clean f)) (channel_count (clean f)), ?w3)"
    by (intro run_step) (simp add: analyze_def)
  also have "\<dots> = run d ?c4"
    by (intro run_step) simp
  also have "\<dots> = ?c4"
    by (intro run_final) (simp add: final_def visualization_def visualize_eq)
  finally show ?thesis
    using Inr by simp
qed

end
