(* ===== verification/Spec2Isabelle.thy ===== *)
theory Spec2Isabelle
  imports Bank_Pipeline
begin

text \<open>
  \<^bold>\<open>A verification development for \<^verbatim>\<open>src/bank_analysis.py\<close>.\<close>

  The program is one script, run top to bottom: it builds a table of 20 bank
  transactions from a literal dictionary (step 1), inspects it for missing cells,
  repeated rows and outlying amounts and marks two columns as categorical (step 2),
  computes descriptive statistics, a summary per transaction type, the number of
  transactions per channel and the failed transactions (step 3), and draws two bar
  charts that it saves as an image (step 4). Each step prints what it found. The steps
  share one table, the variable \<^verbatim>\<open>df\<close>; step 4 reads the two results of step 3 that
  are kept in variables.

  \<^bold>\<open>Theories, in the order of the script.\<close>
  \<^item> \<open>Bank_Prelude\<close>: Python strings as lists of code points (\<open>pystr\<close>, \<open>ascii\<close>,
    \<open>str_int\<close> for the f-string of line 45), the errors the called libraries raise
    (\<open>pyerror\<close>), counting (\<open>count_where\<close>, the \<^verbatim>\<open>.sum()\<close> of a boolean column), the
    partition of a list by a key (\<open>sum_list_groups\<close>, \<open>count_where_groups\<close>), sorted
    distinct keys (\<open>sorted_uniq\<close>), keys in order of first occurrence (\<open>uniq_first\<close>),
    and rounding to two decimals, half to even (\<open>round2\<close>), with the integer routine
    \<open>round2_div\<close> that computes it and the lemma that the two agree.
  \<^item> \<open>Bank_Frame\<close>: the table model shared by all steps. A \<open>transaction\<close> is a record of
    six cells, each of which may be missing; a \<open>frame\<close> is the list of rows under their
    index labels and the dtype of each column. \<open>select_rows\<close> is \<^verbatim>\<open>df[mask]\<close>, \<open>head\<close>
    is \<^verbatim>\<open>df.head()\<close>, \<open>info\<close> what \<^verbatim>\<open>df.info()\<close> reports, \<open>wf_frame\<close> the invariant
    every operation keeps: distinct index labels, the six columns in order, and dtypes
    that agree with the cells (an integer column has no missing cell, a categorical
    column lists its categories ascending, without repetition, and every cell present
    is one of them).
  \<^item> \<open>Bank_Data\<close>: step 1, lines 15 to 36. \<open>data\<close> is the dictionary of lines 17 to 29,
    \<open>DataFrame\<close> the constructor of line 32 with its \<^verbatim>\<open>ValueError\<close> on sequences of
    different lengths, \<open>df\<close> the table of the program. The lemmas give the rows and
    columns of a constructed frame, its well-formedness, and the 20 rows of \<open>df\<close> as a
    literal from which the later theories compute.
  \<^item> \<open>Bank_Cleaner\<close>: step 2, lines 38 to 63. \<open>isnull_sum\<close> (line 41), \<open>duplicated\<close> and
    \<open>duplicate_rows\<close> (line 44, a scan that remembers the rows seen), \<open>abnormal\<close> and
    \<open>outlier_report\<close> (lines 50 to 57, both branches), \<open>astype_category\<close> and \<open>clean\<close>
    (lines 60 and 61). The lemmas characterise each check, show that the cleaner
    changes no cell, and evaluate the checks on \<open>df\<close>.
  \<^item> \<open>Bank_Analyzer\<close>: step 3, lines 65 to 83. \<open>describe\<close> (line 68) with \<open>mean\<close>,
    \<open>variance\<close>, \<open>std\<close>, \<open>quantile\<close>; \<open>type_summary\<close> (line 72) as \<open>groupby_agg\<close>
    followed by \<open>round_summary\<close>; \<open>channel_count\<close> (line 77) as \<open>value_counts\<close> with the
    stable descending sort \<open>sort_desc\<close>; \<open>failed_transactions\<close> (line 82). The lemmas
    show that the groups partition the rows, that the quantiles are monotone and lie
    between minimum and maximum, that the sort is a stable permutation, that the value
    counts are the multiplicities in the multiset of the values present, and give every
    result on \<open>df\<close>.
  \<^item> \<open>Bank_Visualizer\<close>: step 4, lines 85 to 105. \<open>subplots\<close> (line 87), the statements
    of lines 90 to 101 as a list of \<open>command\<close>s run by \<open>exec\<close>, each on the axes at a
    position (\<open>on_axes\<close>, \<^verbatim>\<open>IndexError\<close> beyond the figure), \<open>visualize\<close> their
    composition, \<open>savefig\<close> (line 103) on a disk that maps file names to images. The
    lemmas give the figure for every input and the bars of the program's charts.
  \<^item> \<open>Bank_Pipeline\<close>: the script as a machine. A configuration is a program point
    with the variables bound there (\<open>vars\<close>) and the console and disk (\<open>world\<close>);
    \<open>generate\<close>, \<open>cleaning\<close>, \<open>analyze\<close> and \<open>visualization\<close> are the four steps with
    everything they print, \<open>next_config\<close> runs the step that is due, \<open>run\<close> iterates
    it, \<open>step\<close> and \<open>reachable\<close> are the same machine as inductive relations, \<open>main\<close>
    is the run of the program. The lemmas show that function and relation agree, that
    every reachable configuration holds a well-formed table with the rows step 1 built,
    and that the disk changes only by the image.
  \<^item> This theory: the properties of the whole run.

  \<^bold>\<open>Modelling decisions.\<close> Integers are \<^typ>\<open>int\<close>. The library computes in 64 bits;
  the last section of \<open>Bank_Analyzer\<close> bounds every sum of a group by the number of rows
  times the largest amount, which for the amounts of the program (at most 12000 in
  absolute value, 20 rows) is far inside that range. Floating-point results (means, quantiles, variance) are exact
  rationals, and the standard deviation is the real square root of the variance; the
  last binary digits of the library's results are outside the model. A string is the
  list of its code points, so that the order of labels is the order Python sorts them
  in; the Chinese labels of the program appear as their code points. What the called
  libraries do is modelled from their documented behaviour for arbitrary tables, not
  only for the literal one, so that every check of step 2 is computed and not assumed:
  missing cells are skipped by the statistics, a group-by over a categorical column
  has one group per category whether a row carries it or not, value counts are ordered
  by descending count, and the sort behind them is stable, so that keys of equal count
  stay in the order of the categories.

  \<^bold>\<open>Limits of the library model.\<close> The called libraries are not under \<^verbatim>\<open>src/\<close>; where
  their behaviour is not fixed by the script the model makes a choice, and the
  theorems hold of that choice.
  \<^item> Two failures are modelled: the \<^verbatim>\<open>ValueError\<close> of the constructor and the
    \<^verbatim>\<open>IndexError\<close> of an axes position. Others are not: the comparison of a column
    that holds no number with a threshold, an unknown colour name, a write of the image
    that fails. That a run finishes for every dictionary of equal lengths is therefore
    a statement about the model; on the dictionary of the program none of these occurs.
  \<^item> The sort behind the value counts is stable. The library's default sort promises no
    order among equal counts, and the four channel counts of the program are all 5, so
    the printed order of the channels and the order of the bars of the right chart
    rest on this choice.
  \<^item> A group-by over a categorical column lists every category; whether the library
    does depends on its version. On the table of the program every type occurs, so
    both readings give the same three groups.
  \<^item> Rounding works on the exact rational; the library rounds a binary float, which can
    differ for a value that is a tie in decimal only. None of the three means of the
    program is a tie.
  \<^item> The dtype inferred for a column of integers is \<open>Int64\<close> whatever their size.

  \<^bold>\<open>Termination.\<close> No definition uses fuel. \<open>run\<close> is a total function: each step
  lowers \<open>remaining\<close>, the number of steps ahead of a program point, which is 4 at the
  start. All other recursion is structural.

  \<^bold>\<open>Not modelled.\<close> The rendering of tables and numbers as text on the console (an
  item of the console is the value passed to \<^verbatim>\<open>print\<close>), the font settings of lines
  12 and 13, the pixels of the image and the encoding of the file, and the interactive
  display of line 105, which changes neither variables nor disk.
\<close>

section \<open>The run of the program\<close>

lemma visualization_eq:
  "visualization f ts cc w =
     (Finished f ts cc \<lparr>figsize = (12, 5), fig_axes = [left_axes ts, right_axes cc], tight = True\<rparr>,
      \<lparr>console = console w @ Line msg_step4 # finish_out,
       disk = (disk w)(file_name \<mapsto>
         render 300 \<lparr>figsize = (12, 5), fig_axes = [left_axes ts, right_axes cc], tight = True\<rparr>)\<rparr>)"
  by (simp add: visualization_def visualize_eq emit_def save_def savefig_def)

lemma run_data:
  "run d (initial fs) =
     (if same_length d
      then visualization (clean (build_frame d)) (type_summary (clean (build_frame d)))
        (channel_count (clean (build_frame d)))
        \<lparr>console = Line msg_step1 # generate_out (build_frame d) @ clean_out (build_frame d) @
           analyze_out (clean (build_frame d)), disk = fs\<rparr>
      else (Failed ValueError, \<lparr>console = [Line msg_step1], disk = fs\<rparr>))"
  by (simp add: run_initial DataFrame_def emit_def)

lemma main_eq:
  "main =
     visualization (clean df) (type_summary (clean df)) (channel_count (clean df))
       \<lparr>console = Line msg_step1 # generate_out df @ clean_out df @ analyze_out (clean df),
        disk = Map.empty\<rparr>"
  by (simp add: main_def run_data same_length_data df_def)

lemma reachable_main: "reachable data Map.empty main"
  unfolding main_def by (rule reachable_run) (rule reachable.start)

text \<open>
  C1. A run from an empty console ends in one of two ways. If the six sequences of the
  dictionary have one length, it ends after step 4 with the cleaned table, the summary
  and the channel counts in its variables, with everything the four steps print on the
  console in the order of the script, and with the image saved under the file name and
  no other file changed. Otherwise it ends in step 1 with \<^verbatim>\<open>ValueError\<close> after the
  first banner, the disk untouched.
\<close>

theorem run_result:
  "run d (initial fs) =
     (if same_length d
      then
        (Finished (clean (build_frame d)) (type_summary (clean (build_frame d)))
           (channel_count (clean (build_frame d)))
           \<lparr>figsize = (12, 5),
            fig_axes = [left_axes (type_summary (clean (build_frame d))),
                        right_axes (channel_count (clean (build_frame d)))],
            tight = True\<rparr>,
         \<lparr>console = Line msg_step1 # generate_out (build_frame d) @ clean_out (build_frame d) @
            analyze_out (clean (build_frame d)) @ Line msg_step4 # finish_out,
          disk = fs(file_name \<mapsto>
            render 300 \<lparr>figsize = (12, 5),
              fig_axes = [left_axes (type_summary (clean (build_frame d))),
                          right_axes (channel_count (clean (build_frame d)))],
              tight = True\<rparr>)\<rparr>)
      else (Failed ValueError, \<lparr>console = [Line msg_step1], disk = fs\<rparr>))"
  by (simp add: run_data visualization_eq)

text \<open>
  C12. The program prints 27 items, in this order: the banner of step 1, the preview of
  the first five rows, the column summary followed by the value \<^verbatim>\<open>None\<close> that
  \<^verbatim>\<open>print(df.info())\<close> adds; the missing-value counts, the line with the number of
  repeated rows, the flagged rows (the table has one, so the fixed message is not
  printed), the dtypes after cleaning; the description, the summary per type, the
  channel counts and the failed transactions of the cleaned table; the three closing
  lines.
\<close>

theorem main_console:
  "console (snd main) =
     [Line msg_step1, Line msg_preview, Table (head df), Line msg_info, Info (info df), NoneValue,
      Line msg_step2, Line msg_missing, Counts (isnull_sum df), Line (duplicates_line df),
      Line msg_outliers, Table (abnormal df), Line msg_dtypes, Dtypes (dtypes (clean df)),
      Line msg_step3, Line msg_describe, Description (describe_amount (clean df)),
      Line msg_by_type, Summary (type_summary (clean df)),
      Line msg_by_channel, ValueCounts (channel_count (clean df)),
      Line msg_failed, Table (failed_transactions (clean df)),
      Line msg_step4, Line msg_saved, Line msg_done, Line msg_summary] \<and>
   length (console (snd main)) = 27"
  by (simp add: main_eq visualization_eq generate_out_def clean_out_def analyze_out_def
      finish_out_def outlier_report_df report_item_def)

text \<open>
  C13. After the run of the program the disk holds exactly one file, the image under the
  name \<^verbatim>\<open>bank_transaction_analysis.png\<close>: 3600 by 1500 pixels, so not empty, at 300
  dots per inch, showing the figure bound at the end of the run.
\<close>

theorem main_image:
  "\<exists>f ts cc g. fst main = Finished f ts cc g \<and>
     disk (snd main) = [file_name \<mapsto> render 300 g] \<and>
     dom (disk (snd main)) = {file_name} \<and>
     width (render 300 g) = 3600 \<and> height_px (render 300 g) = 1500 \<and>
     dpi (render 300 g) = 300 \<and> shows_figure (render 300 g) = g \<and>
     0 < width (render 300 g) * height_px (render 300 g) \<and>
     f = clean df \<and> ts = type_summary f \<and> cc = channel_count f"
  by (simp add: main_eq visualization_eq render_def)

text \<open>
  C11. Every configuration a run can reach holds, whenever the table is bound, a
  well-formed table with exactly the rows and index labels that step 1 built: no step
  adds, drops or alters a row. The disk is the initial one until the run finishes and
  then differs from it only by the image.
\<close>

theorem reachable_invariant:
  assumes "reachable d fs c"
  shows "(case table_of (fst c) of None \<Rightarrow> True
          | Some f \<Rightarrow> wf_frame f \<and> rows f = rows (build_frame d)) \<and>
         (case fst c of
            Finished f ts cc g \<Rightarrow> disk (snd c) = fs(file_name \<mapsto> render 300 g)
          | _ \<Rightarrow> disk (snd c) = fs)"
  using reachable_inv [OF assms] by (simp add: table_inv_def disk_inv_def)

theorem reachable_invariant_witness:
  "reachable data Map.empty main \<and> table_of (fst main) = Some (clean df) \<and>
   wf_frame (clean df) \<and> rows (clean df) = rows df"
  using reachable_invariant [OF reachable_main] reachable_main
  by (simp add: main_eq visualization_eq wf_clean wf_df)

end
